theory Spec2Isabelle
  imports Complex_Main "HOL-Library.Word" "HOL-Library.Multiset"
begin

section \<open>nats-top: the data model\<close>

text \<open>
  A shallow embedding of \<^verbatim>\<open>nats-top.go\<close>. Go's \<^verbatim>\<open>int64\<close> is a 64-bit word read
  with \<open>sint\<close>, so that subtraction wraps as it does in the program. Go's
  \<^verbatim>\<open>float64\<close> is idealised as a real number: every statement about a rate below
  is a statement about the exact quotient, which the program rounds to the nearest
  double. Go's \<^verbatim>\<open>int\<close> carries no arithmetic that could overflow in the parts
  modelled here and is an \<open>int\<close>; the unsigned identifiers and counts of a connection
  are \<open>nat\<close>.
\<close>

type_synonym int64 = "64 word"
type_synonym float64 = real

text \<open>
  The records of the monitoring endpoint, with the fields \<^verbatim>\<open>nats-top.go\<close> reads. A
  pointer field that may be nil (\<^verbatim>\<open>Varz.Info\<close>, \<^verbatim>\<open>Varz.Options\<close>) is an option.
\<close>

record Info =
  Version :: string

record Options =
  MaxConn :: int

record Varz =
  Info :: "Info option"
  Options :: "Options option"
  CPU :: float64
  Mem :: int64
  Uptime :: string
  InMsgs :: int64
  OutMsgs :: int64
  InBytes :: int64
  OutBytes :: int64
  SlowConsumers :: int64

record ConnInfo =
  Cid :: nat
  IP :: string
  Port :: int
  NumSubs :: nat
  Pending :: int
  conn_OutMsgs :: int64
  conn_InMsgs :: int64
  conn_OutBytes :: int64
  conn_InBytes :: int64
  Lang :: string
  conn_Version :: string

record Connz =
  NumConns :: int
  Conns :: "ConnInfo list"

record Rates =
  InMsgsRate :: float64
  OutMsgsRate :: float64
  InBytesRate :: float64
  OutBytesRate :: float64

record Stats =
  Varz :: Varz
  Connz :: Connz
  Rates :: Rates

text \<open>The zero values \<^verbatim>\<open>&gnatsd.Varz{}\<close>, \<^verbatim>\<open>&gnatsd.Connz{}\<close> and \<^verbatim>\<open>&Rates{}\<close>.\<close>

definition Varz_zero :: Varz where
  "Varz_zero = \<lparr>Info = None, Options = None, CPU = 0, Mem = 0, Uptime = [],
     InMsgs = 0, OutMsgs = 0, InBytes = 0, OutBytes = 0, SlowConsumers = 0\<rparr>"

definition Connz_zero :: Connz where
  "Connz_zero = \<lparr>NumConns = 0, Conns = []\<rparr>"

definition Rates_zero :: Rates where
  "Rates_zero = \<lparr>InMsgsRate = 0, OutMsgsRate = 0, InBytesRate = 0, OutBytesRate = 0\<rparr>"

definition Stats_zero :: Stats where
  "Stats_zero = \<lparr>Varz = Varz_zero, Connz = Connz_zero, Rates = Rates_zero\<rparr>"

section \<open>The chart history series (the closure \<^verbatim>\<open>update\<close> of \<^verbatim>\<open>StartUI\<close>)\<close>

text \<open>
  Go's slice expression \<^verbatim>\<open>s[lo:hi]\<close> holds the elements at the indices
  \<open>lo \<le> i < hi\<close>. The program only slices where \<open>hi\<close> is below the length, so the
  run-time panic of an out-of-range bound is not a branch here.
\<close>

definition slice :: "'a list \<Rightarrow> nat \<Rightarrow> nat \<Rightarrow> 'a list" where
  "slice s lo hi = take (hi - lo) (drop lo s)"

text \<open>
  One series update, the same three lines for each of the six charts:
  \<^verbatim>\<open>Data = append(Data, v); if len(Data) > 150 { Data = Data[1:150] }\<close>.
\<close>

definition append_sample :: "'a list \<Rightarrow> 'a \<Rightarrow> 'a list" where
  "append_sample Data v =
     (let Data' = Data @ [v]
      in if length Data' > 150 then slice Data' 1 150 else Data')"

text \<open>Go's integer division truncates towards zero; so does the conversion \<^verbatim>\<open>int(f)\<close>.\<close>

definition quo :: "int \<Rightarrow> int \<Rightarrow> int" where
  "quo a b = (if (a < 0) = (b < 0) then \<bar>a\<bar> div \<bar>b\<bar> else - (\<bar>a\<bar> div \<bar>b\<bar>))"

definition int_of_float :: "float64 \<Rightarrow> int" where
  "int_of_float f = (if 0 \<le> f then \<lfloor>f\<rfloor> else \<lceil>f\<rceil>)"

text \<open>
  The data series of the six chart widgets. The widgets' labels are formatted text and
  are not part of this record.
\<close>

record charts =
  connsData :: "float64 list"
  memData :: "float64 list"
  inMsgsData :: "int list"
  inBytesData :: "int list"
  outMsgsData :: "int list"
  outBytesData :: "int list"

text \<open>
  The series as \<^verbatim>\<open>StartUI\<close> leaves them before the first snapshot. Five charts start
  with the one sample 0. The sparkline of inbound messages is handed to
  \<^verbatim>\<open>NewSparklines\<close> (by value) before its \<^verbatim>\<open>Data\<close> is assigned, so the widget's own
  line starts empty.
\<close>

definition charts_init :: charts where
  "charts_init = \<lparr>connsData = [0], memData = [0], inMsgsData = [],
     inBytesData = [0], outMsgsData = [0], outBytesData = [0]\<rparr>"

text \<open>The dashboard part of \<^verbatim>\<open>update\<close> for one received snapshot.\<close>

definition update_charts :: "charts \<Rightarrow> Stats \<Rightarrow> charts" where
  "update_charts c stats =
     (let memVal = Mem (Varz stats);
          numConns = NumConns (Connz stats);
          inMsgsRate = InMsgsRate (Rates stats);
          outMsgsRate = OutMsgsRate (Rates stats);
          inBytesRate = InBytesRate (Rates stats);
          outBytesRate = OutBytesRate (Rates stats)
      in c\<lparr>connsData := append_sample (connsData c) (real_of_int numConns),
            memData := append_sample (memData c)
              (real_of_int (quo (quo (sint memVal) 1024) 1024)),
            inMsgsData := append_sample (inMsgsData c) (int_of_float inMsgsRate),
            inBytesData := append_sample (inBytesData c) (int_of_float inBytesRate),
            outMsgsData := append_sample (outMsgsData c) (int_of_float outMsgsRate),
            outBytesData := append_sample (outBytesData c) (int_of_float outBytesRate)\<rparr>)"

text \<open>The bound of 150 samples, on all six series.\<close>

definition series_bounded :: "charts \<Rightarrow> bool" where
  "series_bounded c = (length (connsData c) \<le> 150 \<and> length (memData c) \<le> 150
     \<and> length (inMsgsData c) \<le> 150 \<and> length (inBytesData c) \<le> 150
     \<and> length (outMsgsData c) \<le> 150 \<and> length (outBytesData c) \<le> 150)"

text \<open>\<^verbatim>\<open>update\<close> over the snapshots received so far, oldest first.\<close>

definition update_all :: "charts \<Rightarrow> Stats list \<Rightarrow> charts" where
  "update_all c snaps = foldl update_charts c snaps"

text \<open>A snapshot that reports \<open>n\<close> connections and is zero elsewhere.\<close>

definition conns_snapshot :: "int \<Rightarrow> Stats" where
  "conns_snapshot n = Stats_zero\<lparr>Connz := Connz_zero\<lparr>NumConns := n\<rparr>\<rparr>"

section \<open>The shared options map\<close>

text \<open>
  \<^verbatim>\<open>opts\<close> is a \<^verbatim>\<open>map[string]interface{}\<close>: a partial map from keys to dynamically
  typed values. The program stores strings, ints and sort options in it.
\<close>

datatype optval = VString string | VInt int | VSortOpt string

type_synonym opts = "string \<Rightarrow> optval option"

section \<open>The sampler (\<^verbatim>\<open>monitorStats\<close>)\<close>

text \<open>
  Instants are integers (nanoseconds on the program's clock). A \<^verbatim>\<open>time.Duration\<close> is
  an \<^verbatim>\<open>int64\<close> count of nanoseconds; \<^verbatim>\<open>Time.Sub\<close> saturates at the ends of that
  range and \<^verbatim>\<open>Duration.Seconds\<close> is the count divided by \<open>10\<^sup>9\<close>.
\<close>

definition minDuration :: int where
  "minDuration = - (2 ^ 63)"

definition maxDuration :: int where
  "maxDuration = 2 ^ 63 - 1"

definition Sub :: "int \<Rightarrow> int \<Rightarrow> int" where
  "Sub t u =
     (let d = t - u
      in if d < minDuration then minDuration
         else if maxDuration < d then maxDuration else d)"

definition Seconds :: "int \<Rightarrow> float64" where
  "Seconds d = real_of_int d / 1000000000"

definition Second :: int64 where
  "Second = 1000000000"

text \<open>
  The argument of \<^verbatim>\<open>time.Sleep\<close>: \<^verbatim>\<open>time.Duration(val) * time.Second\<close>, a product of
  two \<^verbatim>\<open>int64\<close>. \<^verbatim>\<open>time.Sleep\<close> returns at once when its argument is zero or
  negative, so the time slept is the positive part of the argument.
\<close>

definition sleep_arg :: "int \<Rightarrow> int" where
  "sleep_arg val = sint ((word_of_int val :: int64) * Second)"


text \<open>The variables \<^verbatim>\<open>monitorStats\<close> keeps from one cycle to the next.\<close>

record sampler =
  pollTime :: int
  inMsgsLastVal :: int64
  outMsgsLastVal :: int64
  inBytesLastVal :: int64
  outBytesLastVal :: int64
  inMsgsRate :: float64
  outMsgsRate :: float64
  inBytesRate :: float64
  outBytesRate :: float64
  first :: bool

definition sampler_init :: "int \<Rightarrow> sampler" where
  "sampler_init t0 = \<lparr>pollTime = t0,
     inMsgsLastVal = 0, outMsgsLastVal = 0, inBytesLastVal = 0, outBytesLastVal = 0,
     inMsgsRate = 0, outMsgsRate = 0, inBytesRate = 0, outBytesRate = 0,
     first = True\<rparr>"

text \<open>
  What one call of \<^verbatim>\<open>Request\<close> gives back: an error, a value of the type the caller
  asserts, or a value of another dynamic type (the type assertion fails and the
  snapshot keeps its zero value).
\<close>

datatype 'a response = Failed | Result 'a | Mistyped

text \<open>
  What a cycle reads from the outside: the two responses and the clock at
  \<^verbatim>\<open>now := time.Now()\<close>. A cycle whose first request fails reads neither the second
  response nor the clock.
\<close>

record cycle_in =
  varz_response :: "Varz response"
  connz_response :: "Connz response"
  now :: int

text \<open>
  Lines 165 to 200: the deltas against the last values, the measured interval, the
  rates (skipped while \<^verbatim>\<open>first\<close> is set) and the snapshot's rate record. In Go a
  zero interval makes the quotient infinite or NaN; a real quotient by zero is 0
  in HOL, so the theorems on rates assume the clock has advanced.
\<close>

definition compute_rates :: "sampler \<Rightarrow> Stats \<Rightarrow> int \<Rightarrow> Stats \<times> sampler" where
  "compute_rates s stats now' =
     (let inMsgsVal = InMsgs (Varz stats);
          outMsgsVal = OutMsgs (Varz stats);
          inBytesVal = InBytes (Varz stats);
          outBytesVal = OutBytes (Varz stats);
          inMsgsDelta = inMsgsVal - inMsgsLastVal s;
          outMsgsDelta = outMsgsVal - outMsgsLastVal s;
          inBytesDelta = inBytesVal - inBytesLastVal s;
          outBytesDelta = outBytesVal - outBytesLastVal s;
          tdelta = Sub now' (pollTime s);
          s1 = s\<lparr>inMsgsLastVal := inMsgsVal, outMsgsLastVal := outMsgsVal,
                 inBytesLastVal := inBytesVal, outBytesLastVal := outBytesVal,
                 pollTime := now'\<rparr>;
          s2 = (if first s1 then s1\<lparr>first := False\<rparr>
                else s1\<lparr>inMsgsRate := real_of_int (sint inMsgsDelta) / Seconds tdelta,
                        outMsgsRate := real_of_int (sint outMsgsDelta) / Seconds tdelta,
                        inBytesRate := real_of_int (sint inBytesDelta) / Seconds tdelta,
                        outBytesRate := real_of_int (sint outBytesDelta) / Seconds tdelta\<rparr>)
      in (stats\<lparr>Rates := \<lparr>InMsgsRate = inMsgsRate s2, OutMsgsRate = outMsgsRate s2,
                           InBytesRate = inBytesRate s2, OutBytesRate = outBytesRate s2\<rparr>\<rparr>,
          s2))"

text \<open>
  Lines 151 to 163: the second request. On an error the snapshot is sent as it is and
  the cycle ends (\<^verbatim>\<open>continue\<close>): the sampler's variables are untouched.
\<close>

definition get_connz :: "sampler \<Rightarrow> cycle_in \<Rightarrow> Stats \<Rightarrow> Stats \<times> sampler" where
  "get_connz s c stats =
     (case connz_response c of
        Failed \<Rightarrow> (stats, s)
      | Result connz \<Rightarrow> compute_rates s (stats\<lparr>Connz := connz\<rparr>) (now c)
      | Mistyped \<Rightarrow> compute_rates s stats (now c))"

text \<open>Lines 131 to 149: the fresh snapshot and the first request.\<close>

definition get_varz :: "sampler \<Rightarrow> cycle_in \<Rightarrow> Stats \<times> sampler" where
  "get_varz s c =
     (let stats = Stats_zero
      in case varz_response c of
           Failed \<Rightarrow> (stats, s)
         | Result varz \<Rightarrow> get_connz s c (stats\<lparr>Varz := varz\<rparr>)
         | Mistyped \<Rightarrow> get_connz s c stats)"

text \<open>
  One pass of the loop body. \<open>None\<close> is \<^verbatim>\<open>log.Fatalf\<close> (the process exits with
  status 1) when \<^verbatim>\<open>opts["delay"]\<close> is not an int. Otherwise the pass gives the
  argument it handed to \<^verbatim>\<open>time.Sleep\<close>, the snapshot it sent on the channel and the
  sampler's variables for the next pass.
\<close>

definition cycle :: "opts \<Rightarrow> sampler \<Rightarrow> cycle_in \<Rightarrow> (int \<times> Stats \<times> sampler) option" where
  "cycle opts s c =
     (case opts ''delay'' of
        Some (VInt val) \<Rightarrow>
          (case get_varz s c of (stats, s') \<Rightarrow> Some (sleep_arg val, stats, s'))
      | _ \<Rightarrow> None)"

text \<open>
  The loop over the cycles observed so far. The result is the list of (sleep argument,
  snapshot sent), one entry per completed cycle, and whether the loop is still running
  after them (\<open>False\<close>: it ended in \<^verbatim>\<open>log.Fatalf\<close>).
\<close>

fun run_cycles :: "opts \<Rightarrow> sampler \<Rightarrow> cycle_in list \<Rightarrow> (int \<times> Stats) list \<times> bool" where
  "run_cycles opts s [] = ([], True)"
| "run_cycles opts s (c # cs) =
     (case cycle opts s c of
        None \<Rightarrow> ([], False)
      | Some (slept, stats, s') \<Rightarrow>
          (case run_cycles opts s' cs of (sent, alive) \<Rightarrow> ((slept, stats) # sent, alive)))"

definition monitorStats :: "opts \<Rightarrow> int \<Rightarrow> cycle_in list \<Rightarrow> (int \<times> Stats) list \<times> bool" where
  "monitorStats opts t0 cs = run_cycles opts (sampler_init t0) cs"

definition published :: "opts \<Rightarrow> int \<Rightarrow> cycle_in list \<Rightarrow> Stats list" where
  "published opts t0 cs = map snd (fst (monitorStats opts t0 cs))"

text \<open>A cycle whose two requests both succeed, and the run of such cycles.\<close>

definition success :: "Varz \<times> Connz \<times> int \<Rightarrow> cycle_in" where
  "success x = (case x of (varz, connz, t) \<Rightarrow>
     \<lparr>varz_response = Result varz, connz_response = Result connz, now = t\<rparr>)"

definition counters_nonneg :: "Varz \<Rightarrow> bool" where
  "counters_nonneg v = (0 \<le> sint (InMsgs v) \<and> 0 \<le> sint (OutMsgs v)
     \<and> 0 \<le> sint (InBytes v) \<and> 0 \<le> sint (OutBytes v))"

text \<open>
  The rate record the specification describes for two consecutive successful cycles:
  each counter's difference divided by the seconds measured between the two clock
  readings. It is compared with what \<open>compute_rates\<close> sends.
\<close>

definition rates_between :: "Varz \<Rightarrow> int \<Rightarrow> Varz \<Rightarrow> int \<Rightarrow> Rates" where
  "rates_between v' t' v t =
     \<lparr>InMsgsRate = real_of_int (sint (InMsgs v) - sint (InMsgs v')) / Seconds (Sub t t'),
      OutMsgsRate = real_of_int (sint (OutMsgs v) - sint (OutMsgs v')) / Seconds (Sub t t'),
      InBytesRate = real_of_int (sint (InBytes v) - sint (InBytes v')) / Seconds (Sub t t'),
      OutBytesRate = real_of_int (sint (OutBytes v) - sint (OutBytes v')) / Seconds (Sub t t')\<rparr>"

text \<open>
  The sampler's variables hold the counters of \<open>v\<close> and the clock reading \<open>t\<close> of the
  last successful cycle, which was not the first.
\<close>

definition tracks :: "sampler \<Rightarrow> Varz \<Rightarrow> int \<Rightarrow> bool" where
  "tracks s v t = (inMsgsLastVal s = InMsgs v \<and> outMsgsLastVal s = OutMsgs v
     \<and> inBytesLastVal s = InBytes v \<and> outBytesLastVal s = OutBytes v
     \<and> pollTime s = t \<and> \<not> first s)"

section \<open>Sort options\<close>

text \<open>
  A sort option is a string (\<^verbatim>\<open>gnatsd.SortOpt\<close>). The six constants the program
  compares it with are declared outside \<^verbatim>\<open>nats-top.go\<close>; their values are a parameter
  \<open>K\<close> of everything that uses them.
\<close>

record sort_consts =
  SortByCid :: string
  SortBySubs :: string
  SortByOutMsgs :: string
  SortByInMsgs :: string
  SortByOutBytes :: string
  SortByInBytes :: string

text \<open>
  The case list \<^verbatim>\<open>case SortByCid, SortBySubs, SortByOutMsgs, SortByInMsgs,
  SortByOutBytes, SortByInBytes\<close> of \<^verbatim>\<open>main\<close> and of \<^verbatim>\<open>StartUI\<close>.
\<close>

definition is_sort_key :: "sort_consts \<Rightarrow> string \<Rightarrow> bool" where
  "is_sort_key K sortOpt =
     (sortOpt = SortByCid K \<or> sortOpt = SortBySubs K \<or> sortOpt = SortByOutMsgs K
      \<or> sortOpt = SortByInMsgs K \<or> sortOpt = SortByOutBytes K \<or> sortOpt = SortByInBytes K)"

text \<open>
  The names the monitoring endpoint of gnatsd uses for these orders, as one instance
  of the parameter for the examples below.
\<close>

definition endpoint_consts :: sort_consts where
  "endpoint_consts = \<lparr>SortByCid = ''cid'', SortBySubs = ''subs'',
     SortByOutMsgs = ''msgs_to'', SortByInMsgs = ''msgs_from'',
     SortByOutBytes = ''bytes_to'', SortByInBytes = ''bytes_from''\<rparr>"

section \<open>Start-up (\<^verbatim>\<open>init\<close> and \<^verbatim>\<open>main\<close>)\<close>


record flags =
  host :: string
  port :: int
  conns :: int
  delay :: int
  sortBy :: string
  showVersion :: bool






section \<open>Sorting the connections (\<^verbatim>\<open>generateParagraph\<close>)\<close>

text \<open>
  The comparators \<^verbatim>\<open>ByCid\<close>, \<^verbatim>\<open>BySubs\<close>, \<^verbatim>\<open>ByMsgsTo\<close>, \<^verbatim>\<open>ByMsgsFrom\<close>,
  \<^verbatim>\<open>ByBytesTo\<close> and \<^verbatim>\<open>ByBytesFrom\<close> are declared outside \<^verbatim>\<open>nats-top.go\<close>, in the
  program's \<^verbatim>\<open>util\<close> package. Each definition below is the \<^verbatim>\<open>Less\<close> of one of them
  and compares the one field that the specification names for the key under which
  \<^verbatim>\<open>generateParagraph\<close> uses it.
\<close>

text \<open>Modelled from the spec: \<^verbatim>\<open>ByCid\<close>, missing from the sources, orders "by id".\<close>

definition ByCid :: "ConnInfo \<Rightarrow> ConnInfo \<Rightarrow> bool" where
  "ByCid a b = (Cid a < Cid b)"

text \<open>
  Modelled from the spec: \<^verbatim>\<open>BySubs\<close>, missing from the sources, orders "by subscription
  count".
\<close>

definition BySubs :: "ConnInfo \<Rightarrow> ConnInfo \<Rightarrow> bool" where
  "BySubs a b = (NumSubs a < NumSubs b)"

text \<open>
  Modelled from the spec: \<^verbatim>\<open>ByMsgsTo\<close>, missing from the sources, orders "by outbound
  message count".
\<close>

definition ByMsgsTo :: "ConnInfo \<Rightarrow> ConnInfo \<Rightarrow> bool" where
  "ByMsgsTo a b = (sint (conn_OutMsgs a) < sint (conn_OutMsgs b))"

text \<open>
  Modelled from the spec: \<^verbatim>\<open>ByMsgsFrom\<close>, missing from the sources, orders "by inbound
  message count".
\<close>

definition ByMsgsFrom :: "ConnInfo \<Rightarrow> ConnInfo \<Rightarrow> bool" where
  "ByMsgsFrom a b = (sint (conn_InMsgs a) < sint (conn_InMsgs b))"

text \<open>
  Modelled from the spec: \<^verbatim>\<open>ByBytesTo\<close>, missing from the sources, orders "by outbound
  byte count".
\<close>

definition ByBytesTo :: "ConnInfo \<Rightarrow> ConnInfo \<Rightarrow> bool" where
  "ByBytesTo a b = (sint (conn_OutBytes a) < sint (conn_OutBytes b))"

text \<open>
  Modelled from the spec: \<^verbatim>\<open>ByBytesFrom\<close>, missing from the sources, orders "by inbound
  byte count".
\<close>

definition ByBytesFrom :: "ConnInfo \<Rightarrow> ConnInfo \<Rightarrow> bool" where
  "ByBytesFrom a b = (sint (conn_InBytes a) < sint (conn_InBytes b))"

text \<open>\<^verbatim>\<open>sort.Reverse\<close>: the comparator with its arguments exchanged.\<close>

definition Reverse :: "('a \<Rightarrow> 'a \<Rightarrow> bool) \<Rightarrow> 'a \<Rightarrow> 'a \<Rightarrow> bool" where
  "Reverse lt a b = lt b a"

text \<open>
  \<^verbatim>\<open>sort.Sort\<close> of the standard library, as its \<^verbatim>\<open>insertionSort\<close>:
  \<^verbatim>\<open>for i := a+1; i < b; i++ { for j := i; j > a && Less(j, j-1); j-- { Swap(j, j-1) } }\<close>.
  Every release of the library runs exactly this on a slice of at most six elements.
  On a longer slice the library partitions first, and may leave elements that compare
  equal in another order; the result is sorted by \<^verbatim>\<open>Less\<close> and a permutation of the
  input all the same, which is all that the general theorems below state.

  \<open>sift lt x acc\<close> is the inner loop: \<open>acc\<close> is the sorted prefix with its last
  element first, and \<open>x\<close> moves down past every element it is less than.
\<close>

primrec sift :: "('a \<Rightarrow> 'a \<Rightarrow> bool) \<Rightarrow> 'a \<Rightarrow> 'a list \<Rightarrow> 'a list" where
  "sift lt x [] = [x]"
| "sift lt x (y # ys) = (if lt x y then y # sift lt x ys else x # y # ys)"

definition insertionSort :: "('a \<Rightarrow> 'a \<Rightarrow> bool) \<Rightarrow> 'a list \<Rightarrow> 'a list" where
  "insertionSort lt data = rev (foldl (\<lambda>acc x. sift lt x acc) [] data)"

definition Sort :: "('a \<Rightarrow> 'a \<Rightarrow> bool) \<Rightarrow> 'a list \<Rightarrow> 'a list" where
  "Sort lt data = insertionSort lt data"

text \<open>
  The switch on \<^verbatim>\<open>opts["sort"]\<close> (lines 259 to 272). A case matches when the option
  holds a sort option equal to the case's constant; the first matching case wins; with
  no match (or no option) the slice is left as it is.
\<close>

definition sort_conns :: "sort_consts \<Rightarrow> opts \<Rightarrow> ConnInfo list \<Rightarrow> ConnInfo list" where
  "sort_conns K opts cs =
     (case opts ''sort'' of
        Some (VSortOpt k) \<Rightarrow>
          if k = SortByCid K then Sort ByCid cs
          else if k = SortBySubs K then Sort (Reverse BySubs) cs
          else if k = SortByOutMsgs K then Sort (Reverse ByMsgsTo) cs
          else if k = SortByInMsgs K then Sort (Reverse ByMsgsFrom) cs
          else if k = SortByOutBytes K then Sort (Reverse ByBytesTo) cs
          else if k = SortByInBytes K then Sort (Reverse ByBytesFrom) cs
          else cs
      | _ \<Rightarrow> cs)"

text \<open>
  The text is built with \<^verbatim>\<open>fmt.Sprintf\<close> and \<^verbatim>\<open>Psize\<close>; the two formatters, for the
  lines above the table and for one row, are parameters.
\<close>

record formatters =
  head_lines :: "Stats \<Rightarrow> string"
  conn_line :: "ConnInfo \<Rightarrow> string"

text \<open>
  \<^verbatim>\<open>generateParagraph\<close> sorts \<^verbatim>\<open>stats.Connz.Conns\<close> in place, through the pointer it
  was given, and then prints the rows in the slice's new order. The result is the text
  and the snapshot as the call leaves it.
\<close>

definition generateParagraph ::
    "sort_consts \<Rightarrow> formatters \<Rightarrow> opts \<Rightarrow> Stats \<Rightarrow> string \<times> Stats" where
  "generateParagraph K F opts stats =
     (let text = head_lines F stats;
          stats' = stats\<lparr>Connz := (Connz stats)\<lparr>Conns := sort_conns K opts (Conns (Connz stats))\<rparr>\<rparr>;
          text = text @ concat (map (conn_line F) (Conns (Connz stats')))
      in (text, stats'))"

text \<open>A connection with the given id and subscription count, for the examples.\<close>

definition example_conn :: "nat \<Rightarrow> nat \<Rightarrow> ConnInfo" where
  "example_conn cid subs = \<lparr>Cid = cid, IP = ''127.0.0.1'', Port = 4222, NumSubs = subs,
     Pending = 0, conn_OutMsgs = 0, conn_InMsgs = 0, conn_OutBytes = 0, conn_InBytes = 0,
     Lang = ''go'', conn_Version = ''1.0''\<rparr>"


section \<open>The keyboard loop (\<^verbatim>\<open>StartUI\<close>)\<close>

text \<open>
  An event of the terminal library, with the three fields the loop reads. A key event
  carries either a key code (\<^verbatim>\<open>Key\<close>, with \<^verbatim>\<open>Ch\<close> zero) or a character (\<^verbatim>\<open>Ch\<close>, with
  \<^verbatim>\<open>Key\<close> zero); the space bar, enter and the two backspace codes are key codes.
  \<^verbatim>\<open>Ch\<close> is a rune, a signed 32-bit code point.
\<close>

datatype EventType =
  EventKey | EventResize | EventMouse | EventError | EventInterrupt | EventRaw | EventNone

record Event =
  Type :: EventType
  Key :: nat
  Ch :: int

definition KeyBackspace :: nat where
  "KeyBackspace = 0x08"

definition KeyEnter :: nat where
  "KeyEnter = 0x0D"

definition KeySpace :: nat where
  "KeySpace = 0x20"

definition KeyBackspace2 :: nat where
  "KeyBackspace2 = 0x7F"

text \<open>A character literal of the program, as a rune.\<close>

definition rune :: "char \<Rightarrow> int" where
  "rune c = of_char c"

text \<open>
  Go's conversion \<^verbatim>\<open>string(r)\<close> of a rune: the UTF-8 encoding of the code point, and
  the encoding of U+FFFD for a value that is not a valid code point. A Go string is a
  sequence of bytes, as a \<open>string\<close> is here.
\<close>

definition string_of_rune :: "int \<Rightarrow> string" where
  "string_of_rune r =
     (if r < 0 \<or> 0x10FFFF < r \<or> (0xD800 \<le> r \<and> r \<le> 0xDFFF)
        then [char_of (0xEF :: int), char_of (0xBF :: int), char_of (0xBD :: int)]
      else if r < 0x80 then [char_of r]
      else if r < 0x800 then [char_of (0xC0 + r div 64), char_of (0x80 + r mod 64)]
      else if r < 0x10000
        then [char_of (0xE0 + r div 4096), char_of (0x80 + r div 64 mod 64),
              char_of (0x80 + r mod 64)]
      else [char_of (0xF0 + r div 262144), char_of (0x80 + r div 4096 mod 64),
            char_of (0x80 + r div 64 mod 64), char_of (0x80 + r mod 64)])"

text \<open>
  What the loop writes to the terminal, one constructor per call site, with the
  arguments of the call:
  \<^item> \<open>InvalidOrder pad buf\<close>: \<^verbatim>\<open>Printf("...invalid order: %s%s", emptyPadding, optionBuf)\<close>;
  \<^item> \<open>ClearLine n\<close>: the \<open>n\<close> blanks that \<^verbatim>\<open>refreshOptionHeader\<close> prints over the prompt;
  \<^item> \<open>SortBy v buf\<close>: \<^verbatim>\<open>Printf("...sort by [%s]: %s", opts["sort"], optionBuf)\<close>;
  \<^item> \<open>SortByPrompt v\<close>: \<^verbatim>\<open>Printf("...sort by [%s]:", opts["sort"])\<close>;
  \<^item> \<open>Limit v buf\<close>: \<^verbatim>\<open>Printf("...limit   [%d]: %s", opts["conns"], optionBuf)\<close>;
  \<^item> \<open>LimitPrompt v\<close>: \<^verbatim>\<open>Printf("...limit   [%d]:", opts["conns"])\<close>;
  \<^item> \<open>BodyAlign\<close>: \<^verbatim>\<open>ui.Body.Align()\<close>;
  \<^item> \<open>RedrawRequest\<close>: a send on the \<^verbatim>\<open>redraw\<close> channel.
\<close>

datatype printed =
    InvalidOrder string string
  | ClearLine nat
  | SortBy "optval option" string
  | SortByPrompt "optval option"
  | Limit "optval option" string
  | LimitPrompt "optval option"
  | BodyAlign
  | RedrawRequest

text \<open>
  The variables of \<^verbatim>\<open>StartUI\<close> that the loop reads and writes, the terminal output so
  far, and the goroutines started by the invalid-order branch that are still in their
  \<^verbatim>\<open>time.Sleep\<close> (each with the duration it sleeps, in nanoseconds).
\<close>

record ui_state =
  ui_opts :: opts
  waitingSortOption :: bool
  waitingLimitOption :: bool
  optionBuf :: string
  viewMode :: string
  sleepers :: "int list"
  screen :: "printed list"

definition StartUI_init :: "opts \<Rightarrow> ui_state" where
  "StartUI_init opts = \<lparr>ui_opts = opts, waitingSortOption = False, waitingLimitOption = False,
     optionBuf = [], viewMode = ''top'', sleepers = [], screen = []\<rparr>"

definition emit :: "printed \<Rightarrow> ui_state \<Rightarrow> ui_state" where
  "emit x s = s\<lparr>screen := screen s @ [x]\<rparr>"

text \<open>
  \<^verbatim>\<open>refreshOptionHeader\<close>: 18 blanks, 2 more, and 2 for each byte of the buffer.
\<close>

definition refreshOptionHeader :: "ui_state \<Rightarrow> ui_state" where
  "refreshOptionHeader s = emit (ClearLine (18 + 2 + 2 * length (optionBuf s))) s"

text \<open>
  The goroutine of the invalid-order branch (lines 522 to 533). Its first part, up to
  the call of \<^verbatim>\<open>time.Sleep(1 * time.Second)\<close>, is taken to run when it is started:
\<close>

definition invalid_order :: "ui_state \<Rightarrow> ui_state" where
  "invalid_order s =
     (let emptyPadding = (if length (optionBuf s) < 5 then ''       '' else '''');
          s = emit (InvalidOrder emptyPadding (optionBuf s)) s
      in s\<lparr>sleepers := sleepers s @ [1 * 1000000000]\<rparr>)"

text \<open>and its second part runs when the sleep of the oldest such goroutine ends:\<close>

definition wake :: "ui_state \<Rightarrow> ui_state" where
  "wake s =
     (case sleepers s of
        [] \<Rightarrow> s
      | d # ds \<Rightarrow>
          (let s = s\<lparr>sleepers := ds\<rparr>;
               s = s\<lparr>waitingSortOption := False\<rparr>;
               s = refreshOptionHeader s
           in s\<lparr>optionBuf := []\<rparr>))"

text \<open>The backspace handling, the same lines in both prompts (543 to 549, 569 to 575).\<close>

definition edit_buf :: "Event \<Rightarrow> ui_state \<Rightarrow> ui_state" where
  "edit_buf e s =
     (if Type e = EventKey \<and> length (optionBuf s) > 0
         \<and> (Key e = KeyBackspace \<or> Key e = KeyBackspace2)
      then refreshOptionHeader (s\<lparr>optionBuf := butlast (optionBuf s)\<rparr>)
      else s\<lparr>optionBuf := optionBuf s @ string_of_rune (Ch e)\<rparr>)"

text \<open>
  The block \<^verbatim>\<open>if waitingSortOption { ... }\<close> (lines 513 to 551). The second component
  says whether the block ended in \<^verbatim>\<open>continue\<close>.
\<close>

definition sort_prompt :: "sort_consts \<Rightarrow> Event \<Rightarrow> ui_state \<Rightarrow> ui_state \<times> bool" where
  "sort_prompt K e s =
     (if Type e = EventKey \<and> Key e = KeyEnter then
        (let sortOpt = optionBuf s
         in if is_sort_key K sortOpt then
              (let s = s\<lparr>ui_opts := (ui_opts s)(''sort'' \<mapsto> VSortOpt sortOpt)\<rparr>;
                   s = refreshOptionHeader s;
                   s = s\<lparr>waitingSortOption := False\<rparr>
               in (s\<lparr>optionBuf := []\<rparr>, True))
            else (invalid_order s, True))
      else
        (let s = edit_buf e s
         in (emit (SortBy (ui_opts s ''sort'') (optionBuf s)) s, False)))"

text \<open>
  The block \<^verbatim>\<open>if waitingLimitOption { ... }\<close> (lines 553 to 577). \<open>Sscanf\<close> stands for
  the library's \<^verbatim>\<open>fmt.Sscanf(optionBuf, "%d", &n)\<close>: the number read, or \<open>None\<close> on an
  error.
\<close>

definition limit_prompt ::
    "(string \<Rightarrow> int option) \<Rightarrow> Event \<Rightarrow> ui_state \<Rightarrow> ui_state \<times> bool" where
  "limit_prompt Sscanf e s =
     (if Type e = EventKey \<and> Key e = KeyEnter then
        (let s = (case Sscanf (optionBuf s) of
                    Some n \<Rightarrow> s\<lparr>ui_opts := (ui_opts s)(''conns'' \<mapsto> VInt n)\<rparr>
                  | None \<Rightarrow> s);
             s = s\<lparr>waitingLimitOption := False\<rparr>;
             s = s\<lparr>optionBuf := []\<rparr>
         in (refreshOptionHeader s, True))
      else
        (let s = edit_buf e s
         in (emit (Limit (ui_opts s ''conns'') (optionBuf s)) s, False)))"

text \<open>The space bar (lines 593 to 608).\<close>

definition toggle_view :: "ui_state \<Rightarrow> ui_state" where
  "toggle_view s =
     (let s = (if viewMode s = ''top'' then
                 (let s = refreshOptionHeader s;
                      s = s\<lparr>viewMode := ''dashboard''\<rparr>;
                      s = s\<lparr>waitingSortOption := False\<rparr>
                  in s\<lparr>waitingLimitOption := False\<rparr>)
               else if viewMode s = ''dashboard'' then s\<lparr>viewMode := ''top''\<rparr>
               else s)
      in emit BodyAlign s)"

text \<open>
  A resize (lines 610 to 640): the widgets' heights are recomputed in the dashboard
  view (widget geometry is outside this model), then the body is aligned and a redraw
  is requested.
\<close>

definition resize :: "ui_state \<Rightarrow> ui_state" where
  "resize s = emit RedrawRequest (emit BodyAlign s)"

text \<open>
  The tests after the quit test (lines 583 to 640), one \<^verbatim>\<open>if\<close> after the other:
  \<^verbatim>\<open>o\<close>, \<^verbatim>\<open>n\<close>, the space bar and a resize.
\<close>

definition other_keys :: "Event \<Rightarrow> ui_state \<Rightarrow> ui_state" where
  "other_keys e s =
     (let s = (if Type e = EventKey \<and> Ch e = rune CHR ''o'' \<and> \<not> waitingLimitOption s
               then (emit (SortByPrompt (ui_opts s ''sort'')) s)\<lparr>waitingSortOption := True\<rparr>
               else s);
          s = (if Type e = EventKey \<and> Ch e = rune CHR ''n'' \<and> \<not> waitingSortOption s
               then (emit (LimitPrompt (ui_opts s ''conns'')) s)\<lparr>waitingLimitOption := True\<rparr>
               else s);
          s = (if Type e = EventKey \<and> Key e = KeySpace then toggle_view s else s)
      in if Type e = EventResize then resize s else s)"

text \<open>
  The keys handled after the two prompt blocks (lines 579 to 640). \<open>Inl 0\<close> is
  \<^verbatim>\<open>cleanExit\<close>: the process ends with status 0.
\<close>

definition keys :: "Event \<Rightarrow> ui_state \<Rightarrow> nat + ui_state" where
  "keys e s =
     (if Type e = EventKey \<and> Ch e = rune CHR ''q'' then Inl 0 else Inr (other_keys e s))"

text \<open>One event taken from the event channel (the body of \<^verbatim>\<open>case e := <-evt\<close>).\<close>

definition handle_event ::
    "sort_consts \<Rightarrow> (string \<Rightarrow> int option) \<Rightarrow> Event \<Rightarrow> ui_state \<Rightarrow> nat + ui_state" where
  "handle_event K Sscanf e s =
     (case (if waitingSortOption s then sort_prompt K e s else (s, False)) of
        (s, continue) \<Rightarrow>
          if continue then Inr s
          else
            (case (if waitingLimitOption s then limit_prompt Sscanf e s else (s, False)) of
               (s, continue) \<Rightarrow> if continue then Inr s else keys e s))"

text \<open>
  What the two calls of the invalid-order branch write on the terminal. Both first move
  the cursor to row 6, column 1 (\<^verbatim>\<open>\033[1;1H\033[6;1H\<close>): \<open>InvalidOrder pad buf\<close> then
  writes \<open>notice_text pad buf\<close> and \<open>ClearLine n\<close> writes \<open>blank_text n\<close>. Text written
  over a row replaces the row's first columns and leaves the others.
\<close>

definition notice_text :: "string \<Rightarrow> string \<Rightarrow> string" where
  "notice_text emptyPadding buf = ''invalid order: '' @ emptyPadding @ buf"

definition blank_text :: "nat \<Rightarrow> string" where
  "blank_text n = replicate n CHR '' ''"

definition overprint :: "string \<Rightarrow> string \<Rightarrow> string" where
  "overprint row new = new @ drop (length new) row"

text \<open>The two prompts are not both active.\<close>

definition exclusive :: "ui_state \<Rightarrow> bool" where
  "exclusive s = (\<not> (waitingSortOption s \<and> waitingLimitOption s))"

text \<open>
  What the loop reacts to: an event, or the end of the sleep of a goroutine of the
  invalid-order branch. A run ends at \<^verbatim>\<open>cleanExit\<close>.
\<close>

datatype stimulus = Ev Event | Woken

fun run_ui :: "sort_consts \<Rightarrow> (string \<Rightarrow> int option) \<Rightarrow> ui_state \<Rightarrow> stimulus list \<Rightarrow> nat + ui_state" where
  "run_ui K Sscanf s [] = Inr s"
| "run_ui K Sscanf s (Woken # ins) = run_ui K Sscanf (wake s) ins"
| "run_ui K Sscanf s (Ev e # ins) =
     (case handle_event K Sscanf e s of
        Inl code \<Rightarrow> Inl code
      | Inr s' \<Rightarrow> run_ui K Sscanf s' ins)"

text \<open>The key events of the examples: a character, and a key code.\<close>

definition char_event :: "char \<Rightarrow> Event" where
  "char_event c = \<lparr>Type = EventKey, Key = 0, Ch = rune c\<rparr>"

definition key_event :: "nat \<Rightarrow> Event" where
  "key_event k = \<lparr>Type = EventKey, Key = k, Ch = 0\<rparr>"

section \<open>Properties of the history series\<close>

lemma length_append_sample:
  "length (append_sample Data v) = (if length Data < 150 then Suc (length Data) else 149)"
  by (simp add: append_sample_def slice_def Let_def)

lemma append_sample_short:
  "length Data < 150 \<Longrightarrow> append_sample Data v = Data @ [v]"
  by (simp add: append_sample_def Let_def)

lemma append_sample_full:
  "length Data = 150 \<Longrightarrow> append_sample Data v = take 149 (tl Data)"
  by (cases Data) (simp_all add: append_sample_def slice_def Let_def)

lemma foldl_append_sample_short:
  "length Data + length vs \<le> 150 \<Longrightarrow> foldl append_sample Data vs = Data @ vs"
  by (induction vs arbitrary: Data) (simp_all add: append_sample_short)

lemma connsData_update_all:
  "connsData (update_all c snaps) =
     foldl append_sample (connsData c) (map (\<lambda>s. real_of_int (NumConns (Connz s))) snaps)"
  unfolding update_all_def
  by (induction snaps arbitrary: c) (simp_all add: update_charts_def Let_def)

text \<open>
  C1. The claim: a series never exceeds 150 samples and always holds the most recent
  150 appended samples, oldest evicted first; feeding the 151 samples 0, 1, ..., 150 to
  the connections series leaves exactly 1, ..., 150. The program on that input: the
  series, which starts as the one sample 0, is full (150 samples) once the sample 148
  is in; appending 149 makes it 151 long and the trim \<^verbatim>\<open>Data[1:150]\<close> keeps the
  indices 1 to 149, dropping the oldest sample and the sample 149 just appended;
  150 is then appended to the 149 survivors. The series ends as 0, ..., 148, 150: it
  still holds the sample 0 and has lost 149, so it is not 1, ..., 150.
\<close>

theorem conns_series_151_samples:
  "connsData (update_all charts_init (map (\<lambda>n. conns_snapshot (int n)) [0..<151]))
     = map real [0..<149] @ [150]
   \<and> connsData (update_all charts_init (map (\<lambda>n. conns_snapshot (int n)) [0..<151]))
     \<noteq> map real [1..<151]"
proof -
  let ?f = "\<lambda>s. real_of_int (NumConns (Connz s))"
  have samples: "map ?f (map (\<lambda>n. conns_snapshot (int n)) [0..<151]) = map real [0..<151]"
    by (simp add: conns_snapshot_def Connz_zero_def Stats_zero_def comp_def)
  have split: "[0..<151] = [0..<149] @ [149, 150]"
    by (simp add: upt_rec [of 149] upt_rec [of 150] upt_add_eq_append [of 0 149 2, simplified])
  have full: "foldl append_sample [0 :: real] (map real [0..<149]) = 0 # map real [0..<149]"
    by (simp add: foldl_append_sample_short)
  have step1: "append_sample (0 # map real [0..<149]) 149 = map real [0..<149]"
    by (simp add: append_sample_full)
  have step2: "append_sample (map real [0..<149]) 150 = map real [0..<149] @ [150]"
    by (simp add: append_sample_short)
  have "connsData (update_all charts_init (map (\<lambda>n. conns_snapshot (int n)) [0..<151]))
      = foldl append_sample [0] (map real [0..<151])"
    by (simp only: connsData_update_all samples) (simp add: charts_init_def)
  also have "\<dots> = append_sample (append_sample
      (foldl append_sample [0] (map real [0..<149])) 149) 150"
    by (simp only: split map_append foldl_append) simp
  also have "\<dots> = map real [0..<149] @ [150]"
    by (simp only: full step1 step2)
  finally have run:
    "connsData (update_all charts_init (map (\<lambda>n. conns_snapshot (int n)) [0..<151]))
      = map real [0..<149] @ [150]" .
  have "(map real [0..<149] @ [150]) ! 0 = 0"
    by (simp add: nth_append upt_rec [of 0])
  moreover have "map real [1..<151] ! 0 = 1"
    by (simp add: upt_rec [of 1])
  ultimately have "map real [0..<149] @ [150] \<noteq> map real [1..<151]"
    by (metis zero_neq_one)
  with run show ?thesis by simp
qed

lemma length_append_sample_le:
  "length Data \<le> 150 \<Longrightarrow> length (append_sample Data v) \<le> 150"
  by (simp add: length_append_sample)

lemma series_bounded_update_charts:
  "series_bounded c \<Longrightarrow> series_bounded (update_charts c stats)"
  by (simp add: series_bounded_def update_charts_def Let_def length_append_sample_le)

lemma series_bounded_update_all:
  "series_bounded c \<Longrightarrow> series_bounded (update_all c snaps)"
  unfolding update_all_def
  by (induction snaps arbitrary: c) (simp_all add: series_bounded_update_charts)

text \<open>
  The length bound. Whatever snapshots arrive, none of the six series ever holds more
  than 150 samples after an update.
\<close>

theorem series_never_exceed_150:
  "series_bounded (update_all charts_init snaps)"
  by (rule series_bounded_update_all) (simp add: series_bounded_def charts_init_def)

text \<open>
  What the trim keeps. A series that holds 150 samples holds 149 after the next update:
  the old samples but the oldest, in order. The sample just appended is not among
  them.
\<close>

theorem full_series_drops_new_sample:
  assumes "length Data = 150"
  shows "append_sample Data v = take 149 (tl Data)
       \<and> length (append_sample Data v) = 149
       \<and> (\<forall>i < 149. append_sample Data v ! i = Data ! Suc i)"
proof -
  have eq: "append_sample Data v = take 149 (tl Data)"
    using assms by (rule append_sample_full)
  have "take 149 (tl Data) ! i = Data ! Suc i" if "i < 149" for i
    using that assms by (simp add: nth_tl)
  with eq assms show ?thesis by simp
qed

theorem full_series_drops_new_sample_witness:
  "append_sample (replicate 150 (0 :: int)) 7 = replicate 149 0"
  using full_series_drops_new_sample [where Data = "replicate 150 (0 :: int)" and v = 7]
  by (simp add: take_tl)

section \<open>Properties of the sampler\<close>

lemma sint_diff_nonneg:
  fixes a b :: int64
  assumes "0 \<le> sint a" "0 \<le> sint b"
  shows "sint (a - b) = sint a - sint b"
proof -
  have "sint a < 2 ^ 63" "sint b < 2 ^ 63"
    using sint_lt [of a] sint_lt [of b] by simp_all
  with assms have "- (2 ^ 63) \<le> sint a - sint b" "sint a - sint b < 2 ^ 63"
    by linarith+
  then show ?thesis
    by (simp add: sint_word_ariths signed_take_bit_int_eq_self)
qed

lemma signed_diff_nonneg:
  fixes a b :: int64
  assumes "0 \<le> sint a" "0 \<le> sint b"
  shows "(signed (a - b) :: real) = signed a - signed b"
proof -
  have "real_of_int (sint (a - b)) = real_of_int (sint a) - real_of_int (sint b)"
    using sint_diff_nonneg [OF assms] by simp
  then show ?thesis by simp
qed

lemma cycle_success:
  "cycle opts s (success (v, z, t)) =
     (case opts ''delay'' of
        Some (VInt val) \<Rightarrow>
          Some (sleep_arg val,
            fst (compute_rates s (Stats_zero\<lparr>Varz := v, Connz := z\<rparr>) t),
            snd (compute_rates s (Stats_zero\<lparr>Varz := v, Connz := z\<rparr>) t))
      | _ \<Rightarrow> None)"
  by (simp add: cycle_def get_varz_def get_connz_def success_def
        split: prod.splits option.splits optval.splits)

lemma compute_rates_tracked:
  assumes "tracks s v' t'" "counters_nonneg v'" "counters_nonneg (Varz stats)"
  shows "Rates (fst (compute_rates s stats t)) = rates_between v' t' (Varz stats) t"
    and "tracks (snd (compute_rates s stats t)) (Varz stats) t"
  using assms
  by (simp_all add: compute_rates_def tracks_def rates_between_def Let_def
        counters_nonneg_def sint_diff_nonneg signed_diff_nonneg)

lemma compute_rates_first:
  assumes "first s" "inMsgsRate s = 0" "outMsgsRate s = 0" "inBytesRate s = 0" "outBytesRate s = 0"
  shows "Rates (fst (compute_rates s stats t)) = Rates_zero"
    and "tracks (snd (compute_rates s stats t)) (Varz stats) t"
  using assms
  by (simp_all add: compute_rates_def tracks_def Rates_zero_def Let_def)

lemma run_cycles_tracked:
  assumes "opts ''delay'' = Some (VInt val)"
  shows "tracks s v0 t0 \<Longrightarrow> counters_nonneg v0 \<Longrightarrow> \<forall>x\<in>set xs. counters_nonneg (fst x) \<Longrightarrow>
     k < length xs \<Longrightarrow>
     Rates (map snd (fst (run_cycles opts s (map success xs))) ! k) =
       (if k = 0 then rates_between v0 t0 (fst (xs ! 0)) (snd (snd (xs ! 0)))
        else rates_between (fst (xs ! (k - 1))) (snd (snd (xs ! (k - 1))))
               (fst (xs ! k)) (snd (snd (xs ! k))))"
proof (induction xs arbitrary: s v0 t0 k)
  case Nil
  then show ?case by simp
next
  case (Cons x xs)
  obtain v z t where x: "x = (v, z, t)" by (cases x)
  let ?st = "Stats_zero\<lparr>Varz := v, Connz := z\<rparr>"
  have nn: "counters_nonneg (Varz ?st)" using Cons.prems(3) x by simp
  have r: "Rates (fst (compute_rates s ?st t)) = rates_between v0 t0 v t"
    and tr: "tracks (snd (compute_rates s ?st t)) v t"
    using compute_rates_tracked [OF Cons.prems(1,2) nn, of t] by simp_all
  show ?case
  proof (cases k)
    case 0
    then show ?thesis
      using r by (simp add: x cycle_success assms case_prod_beta)
  next
    case (Suc j)
    have "Rates (map snd (fst (run_cycles opts (snd (compute_rates s ?st t)) (map success xs))) ! j) =
       (if j = 0 then rates_between v t (fst (xs ! 0)) (snd (snd (xs ! 0)))
        else rates_between (fst (xs ! (j - 1))) (snd (snd (xs ! (j - 1))))
               (fst (xs ! j)) (snd (snd (xs ! j))))"
      using Cons.IH [OF tr, of j] Cons.prems(3,4) nn Suc by simp
    then show ?thesis
      using Suc by (cases j) (simp_all add: x cycle_success assms case_prod_beta)
  qed
qed


lemma cycle_failed:
  assumes "varz_response c = Failed \<or> connz_response c = Failed"
  shows "\<exists>stats. get_varz s c = (stats, s) \<and> Rates stats = Rates_zero
     \<and> Connz stats = Connz_zero
     \<and> (Varz stats = Varz_zero \<or> varz_response c = Result (Varz stats))"
  using assms
  by (cases "varz_response c"; cases "connz_response c")
     (simp_all add: get_varz_def get_connz_def Stats_zero_def)

lemma run_cycles_alive:
  assumes "opts ''delay'' = Some (VInt val)"
  shows "snd (run_cycles opts s cs) \<and> length (fst (run_cycles opts s cs)) = length cs"
  by (induction cs arbitrary: s) (simp_all add: cycle_def assms case_prod_beta)

text \<open>
  C4. Whenever the delay option is an int (as \<^verbatim>\<open>main\<close> always stores it), a cycle in
  which the request for the vitals or the request for the connections fails still
  sends a snapshot: its rates are zero, its connection data is the zero value and its
  vitals are the zero value or the vitals just fetched. The sampler's variables are
  unchanged and the loop goes on: placed anywhere in a run, such a cycle leaves the loop
  running and every cycle of the run has sent one snapshot.
\<close>

theorem fetch_failure_publishes_and_continues:
  assumes "opts ''delay'' = Some (VInt val)"
      and "varz_response c = Failed \<or> connz_response c = Failed"
  shows "(\<exists>stats. cycle opts s c = Some (sleep_arg val, stats, s)
            \<and> Rates stats = Rates_zero \<and> Connz stats = Connz_zero
            \<and> (Varz stats = Varz_zero \<or> varz_response c = Result (Varz stats))
            \<and> run_cycles opts s (c # cs) =
                ((sleep_arg val, stats) # fst (run_cycles opts s cs), True))
       \<and> snd (monitorStats opts start (pre @ c # cs))
       \<and> length (published opts start (pre @ c # cs)) = length pre + 1 + length cs"
proof -
  obtain stats where st: "get_varz s c = (stats, s)" "Rates stats = Rates_zero"
      "Connz stats = Connz_zero"
      "Varz stats = Varz_zero \<or> varz_response c = Result (Varz stats)"
    using cycle_failed [OF assms(2)] by blast
  have c: "cycle opts s c = Some (sleep_arg val, stats, s)"
    by (simp add: cycle_def assms(1) st(1))
  have "run_cycles opts s (c # cs) = ((sleep_arg val, stats) # fst (run_cycles opts s cs), True)"
    using run_cycles_alive [where opts=opts and val=val and s=s and cs=cs, OF assms(1)] by (simp add: c case_prod_beta)
  with c st have "\<exists>stats. cycle opts s c = Some (sleep_arg val, stats, s)
            \<and> Rates stats = Rates_zero \<and> Connz stats = Connz_zero
            \<and> (Varz stats = Varz_zero \<or> varz_response c = Result (Varz stats))
            \<and> run_cycles opts s (c # cs) =
                ((sleep_arg val, stats) # fst (run_cycles opts s cs), True)"
    by blast
  moreover have "snd (monitorStats opts start (pre @ c # cs))"
    "length (published opts start (pre @ c # cs)) = length pre + 1 + length cs"
    using run_cycles_alive [where opts=opts and val=val and s="sampler_init start" and cs="pre @ c # cs", OF assms(1)]
    by (simp_all add: monitorStats_def published_def)
  ultimately show ?thesis by blast
qed

theorem fetch_failure_witness:
  "(\<exists>stats. cycle [''delay'' \<mapsto> VInt 1] (sampler_init 0)
        \<lparr>varz_response = Failed, connz_response = Failed, now = 0\<rparr>
          = Some (sleep_arg 1, stats, sampler_init 0)
      \<and> Rates stats = Rates_zero \<and> Connz stats = Connz_zero
      \<and> (Varz stats = Varz_zero \<or> Failed = Result (Varz stats)))
   \<and> snd (monitorStats [''delay'' \<mapsto> VInt 1] 0
        [\<lparr>varz_response = Failed, connz_response = Failed, now = 0\<rparr>])
   \<and> length (published [''delay'' \<mapsto> VInt 1] 0
        [\<lparr>varz_response = Failed, connz_response = Failed, now = 0\<rparr>]) = 1"
  using fetch_failure_publishes_and_continues
    [where opts = "[''delay'' \<mapsto> VInt 1]" and val = 1 and s = "sampler_init 0"
       and c = "\<lparr>varz_response = Failed, connz_response = Failed, now = 0\<rparr>"
       and start = 0 and pre = "[]" and cs = "[]"]
  by auto

lemma published_Cons_success:
  assumes "opts ''delay'' = Some (VInt val)"
  shows "map snd (fst (run_cycles opts s (success (v, z, t) # cs))) =
     fst (compute_rates s (Stats_zero\<lparr>Varz := v, Connz := z\<rparr>) t)
     # map snd (fst (run_cycles opts (snd (compute_rates s (Stats_zero\<lparr>Varz := v, Connz := z\<rparr>) t)) cs))"
  by (simp add: cycle_success assms case_prod_beta)

lemma sampler_init_first:
  "first (sampler_init t0)" "inMsgsRate (sampler_init t0) = 0" "outMsgsRate (sampler_init t0) = 0"
  "inBytesRate (sampler_init t0) = 0" "outBytesRate (sampler_init t0) = 0"
  by (simp_all add: sampler_init_def)

lemma Sub_pos: "t' < t \<Longrightarrow> 0 < Seconds (Sub t t')"
  by (simp add: Sub_def Seconds_def Let_def minDuration_def maxDuration_def)

text \<open>
  C2. In a run whose cycles all succeed, with a clock that advances from cycle to cycle
  and counters that are not negative, the snapshot of the first cycle carries four zero
  rates, and the snapshot of every later cycle \<open>k\<close> carries, for each counter, its
  difference to cycle \<open>k - 1\<close> divided by the seconds measured between the clock
  readings of the two cycles (a positive number). The configured delay \<open>val\<close> does
  not occur in the rates.
\<close>

theorem rates_all_success:
  assumes delay: "opts ''delay'' = Some (VInt val)"
      and clock: "sorted_wrt (<) (start # map (\<lambda>x. snd (snd x)) xs)"
      and nonneg: "\<forall>x\<in>set xs. counters_nonneg (fst x)"
      and k: "k < length xs"
  shows "Rates (published opts start (map success xs) ! k) =
           (if k = 0 then Rates_zero
            else rates_between (fst (xs ! (k - 1))) (snd (snd (xs ! (k - 1))))
                   (fst (xs ! k)) (snd (snd (xs ! k))))
         \<and> (0 < k \<longrightarrow> 0 < Seconds (Sub (snd (snd (xs ! k))) (snd (snd (xs ! (k - 1))))))"
proof (cases xs)
  case Nil
  with k show ?thesis by simp
next
  case (Cons x ys)
  obtain v z t where x: "x = (v, z, t)" by (cases x)
  let ?st = "Stats_zero\<lparr>Varz := v, Connz := z\<rparr>"
  let ?cr = "compute_rates (sampler_init start) ?st t"
  have zero: "Rates (fst ?cr) = Rates_zero" and tr: "tracks (snd ?cr) v t"
    using compute_rates_first [OF sampler_init_first, of start ?st t] by simp_all
  have pub: "published opts start (map success xs) =
      fst ?cr # map snd (fst (run_cycles opts (snd ?cr) (map success ys)))"
    by (simp add: published_def monitorStats_def Cons x
          published_Cons_success [where opts=opts and val=val, OF delay]
          del: run_cycles.simps)
  have rates: ?thesis if "k = 0"
    using that zero by (simp add: pub)
  have later: ?thesis if kj: "k = Suc j" for j
  proof -
    have j: "j < length ys" using k kj Cons by simp
    have nn: "counters_nonneg v" "\<forall>y\<in>set ys. counters_nonneg (fst y)"
      using nonneg Cons x by simp_all
    have "Rates (map snd (fst (run_cycles opts (snd ?cr) (map success ys))) ! j) =
       (if j = 0 then rates_between v t (fst (ys ! 0)) (snd (snd (ys ! 0)))
        else rates_between (fst (ys ! (j - 1))) (snd (snd (ys ! (j - 1))))
               (fst (ys ! j)) (snd (snd (ys ! j))))"
      by (rule run_cycles_tracked [where opts=opts and val=val, OF delay tr nn j])
    moreover have "published opts start (map success xs) ! k =
        map snd (fst (run_cycles opts (snd ?cr) (map success ys))) ! j"
      by (simp add: pub kj)
    moreover have "xs ! k = ys ! j" "xs ! (k - 1) = (if j = 0 then (v, z, t) else ys ! (j - 1))"
      by (simp_all add: Cons x kj nth_Cons')
    ultimately have r: "Rates (published opts start (map success xs) ! k) =
        rates_between (fst (xs ! (k - 1))) (snd (snd (xs ! (k - 1))))
                   (fst (xs ! k)) (snd (snd (xs ! k)))"
      by (cases "j = 0") simp_all
    have "sorted_wrt (<) (map (\<lambda>x. snd (snd x)) xs)"
      using clock by simp
    then have "snd (snd (xs ! j)) < snd (snd (xs ! Suc j))"
      using k kj by (simp add: sorted_wrt_iff_nth_less)
    then have "0 < Seconds (Sub (snd (snd (xs ! k))) (snd (snd (xs ! (k - 1)))))"
      using kj by (simp add: Sub_pos)
    with r kj show ?thesis by simp
  qed
  show ?thesis
    using rates later by (cases k) simp_all
qed

theorem rates_all_success_witness:
  "Rates (published [''delay'' \<mapsto> VInt 1] 0
      (map success [(Varz_zero\<lparr>InMsgs := 100\<rparr>, Connz_zero, 1000000000),
                    (Varz_zero\<lparr>InMsgs := 600\<rparr>, Connz_zero, 2020000000)]) ! 1)
     = \<lparr>InMsgsRate = 500 / (102 / 100), OutMsgsRate = 0, InBytesRate = 0, OutBytesRate = 0\<rparr>
   \<and> 0 < Seconds (Sub 2020000000 1000000000)"
  using rates_all_success
    [where opts = "[''delay'' \<mapsto> VInt 1]" and val = 1 and start = 0 and k = 1
       and xs = "[(Varz_zero\<lparr>InMsgs := 100\<rparr>, Connz_zero, 1000000000),
                  (Varz_zero\<lparr>InMsgs := 600\<rparr>, Connz_zero, 2020000000)]"]
  by (simp add: counters_nonneg_def Varz_zero_def rates_between_def Seconds_def Sub_def
        minDuration_def maxDuration_def Let_def)

text \<open>
  C3, the claim as stated fails: the first cycle's request fails, the second cycle
  succeeds with an inbound message counter 500 above the sampler's last value, 1.02
  seconds after the sampler's last clock reading. The failed cycle leaves \<^verbatim>\<open>first\<close>
  set, so the second cycle is the first to reach the rate computation and skips it:
  its inbound message rate is 0, not about 490.2.
\<close>

theorem second_cycle_rate_counterexample:
  "InMsgsRate (Rates (published [''delay'' \<mapsto> VInt 1] 0
      [\<lparr>varz_response = Failed, connz_response = Failed, now = 0\<rparr>,
       success (Varz_zero\<lparr>InMsgs := 500\<rparr>, Connz_zero, 1020000000)] ! 1)) = 0
   \<and> sint (InMsgs (Varz_zero\<lparr>InMsgs := 500\<rparr>) - inMsgsLastVal (sampler_init 0)) = 500
   \<and> Seconds (Sub 1020000000 (pollTime (sampler_init 0))) = 102 / 100
   \<and> \<not> \<bar>InMsgsRate (Rates (published [''delay'' \<mapsto> VInt 1] 0
      [\<lparr>varz_response = Failed, connz_response = Failed, now = 0\<rparr>,
       success (Varz_zero\<lparr>InMsgs := 500\<rparr>, Connz_zero, 1020000000)] ! 1)) - 4902 / 10\<bar> < 1"
  by (simp add: published_def monitorStats_def cycle_def get_varz_def get_connz_def
        compute_rates_def sampler_init_def success_def Let_def Stats_zero_def Varz_zero_def
        Rates_zero_def Seconds_def Sub_def minDuration_def maxDuration_def)


text \<open>
  C3 as amended: when the first cycle's request fails and the second cycle succeeds,
  the first snapshot has zero rates, zero connection data and zero or just-fetched
  vitals, and the second snapshot carries the fetched vitals and connections with
  all four rates zero, being the first successful sample.
\<close>

theorem first_success_after_failure:
  assumes "opts ''delay'' = Some (VInt val)"
      and "varz_response c = Failed \<or> connz_response c = Failed"
  shows "\<exists>snap1 snap2. published opts start [c, success (v, z, t)] = [snap1, snap2]
           \<and> Rates snap1 = Rates_zero \<and> Connz snap1 = Connz_zero
           \<and> (Varz snap1 = Varz_zero \<or> varz_response c = Result (Varz snap1))
           \<and> Rates snap2 = Rates_zero \<and> Varz snap2 = v \<and> Connz snap2 = z"
proof -
  obtain snap1 where st: "get_varz (sampler_init start) c = (snap1, sampler_init start)"
      "Rates snap1 = Rates_zero" "Connz snap1 = Connz_zero"
      "Varz snap1 = Varz_zero \<or> varz_response c = Result (Varz snap1)"
    using cycle_failed [OF assms(2)] by blast
  let ?st = "Stats_zero\<lparr>Varz := v, Connz := z\<rparr>"
  let ?snap2 = "fst (compute_rates (sampler_init start) ?st t)"
  have "map snd (fst (run_cycles opts (sampler_init start) [c, success (v, z, t)])) =
      snap1 # map snd (fst (run_cycles opts (sampler_init start) [success (v, z, t)]))"
    by (simp add: cycle_def assms(1) st(1) case_prod_beta)
  also have "\<dots> = [snap1, ?snap2]"
    by (simp add: published_Cons_success [where opts=opts and val=val, OF assms(1)]
          del: run_cycles.simps) simp
  finally have "published opts start [c, success (v, z, t)] = [snap1, ?snap2]"
    by (simp add: published_def monitorStats_def del: run_cycles.simps)
  moreover have "Rates ?snap2 = Rates_zero"
    using compute_rates_first(1) [OF sampler_init_first, of start ?st t] by simp
  moreover have "Varz ?snap2 = v" "Connz ?snap2 = z"
    by (simp_all add: compute_rates_def Let_def)
  ultimately show ?thesis using st by blast
qed


theorem first_success_after_failure_witness:
  "\<exists>snap1 snap2. published [''delay'' \<mapsto> VInt 1] 0
      [\<lparr>varz_response = Failed, connz_response = Failed, now = 0\<rparr>,
       success (Varz_zero\<lparr>InMsgs := 500\<rparr>, Connz_zero, 1020000000)] = [snap1, snap2]
     \<and> Rates snap1 = Rates_zero \<and> Connz snap1 = Connz_zero
     \<and> (Varz snap1 = Varz_zero \<or> Failed = Result (Varz snap1))
     \<and> Rates snap2 = Rates_zero \<and> Varz snap2 = Varz_zero\<lparr>InMsgs := 500\<rparr>
     \<and> Connz snap2 = Connz_zero"
  using first_success_after_failure
    [where opts = "[''delay'' \<mapsto> VInt 1]" and val = 1 and start = 0
       and c = "\<lparr>varz_response = Failed, connz_response = Failed, now = 0\<rparr>"
       and v = "Varz_zero\<lparr>InMsgs := 500\<rparr>" and z = Connz_zero and t = 1020000000]
  by simp

section \<open>Properties of the sort and of the report\<close>

lemma mset_sift: "mset (sift lt x acc) = add_mset x (mset acc)"
  by (induction acc) simp_all

lemma set_sift: "set (sift lt x acc) = insert x (set acc)"
  by (induction acc) auto

lemma sorted_sift:
  assumes asym: "\<And>a b. lt a b \<Longrightarrow> \<not> lt b a"
      and trans: "\<And>a b c. \<not> lt a b \<Longrightarrow> \<not> lt b c \<Longrightarrow> \<not> lt a c"
  shows "sorted_wrt (\<lambda>a b. \<not> lt a b) acc \<Longrightarrow> sorted_wrt (\<lambda>a b. \<not> lt a b) (sift lt x acc)"
proof (induction acc)
  case Nil
  then show ?case by simp
next
  case (Cons y ys)
  show ?case
  proof (cases "lt x y")
    case True
    then have "\<not> lt y x" by (rule asym)
    with Cons True show ?thesis by (auto simp: set_sift)
  next
    case False
    with Cons.prems have "\<forall>z\<in>set ys. \<not> lt x z"
      using trans by auto
    with Cons.prems False show ?thesis by simp
  qed
qed

lemma mset_foldl_sift:
  "mset (foldl (\<lambda>acc x. sift lt x acc) acc data) = mset acc + mset data"
  by (induction data arbitrary: acc) (simp_all add: mset_sift)

lemma sorted_foldl_sift:
  assumes asym: "\<And>a b. lt a b \<Longrightarrow> \<not> lt b a"
      and trans: "\<And>a b c. \<not> lt a b \<Longrightarrow> \<not> lt b c \<Longrightarrow> \<not> lt a c"
  shows "sorted_wrt (\<lambda>a b. \<not> lt a b) acc \<Longrightarrow>
         sorted_wrt (\<lambda>a b. \<not> lt a b) (foldl (\<lambda>acc x. sift lt x acc) acc data)"
  by (induction data arbitrary: acc) (simp_all add: sorted_sift [OF asym trans])

lemma mset_Sort: "mset (Sort lt data) = mset data"
  by (simp add: Sort_def insertionSort_def mset_foldl_sift)

lemma sorted_Sort:
  assumes asym: "\<And>a b. lt a b \<Longrightarrow> \<not> lt b a"
      and trans: "\<And>a b c. \<not> lt a b \<Longrightarrow> \<not> lt b c \<Longrightarrow> \<not> lt a c"
  shows "sorted_wrt (\<lambda>a b. \<not> lt b a) (Sort lt data)"
  using sorted_foldl_sift [where lt = lt and acc = "[]" and data = data, OF asym trans]
  by (simp add: Sort_def insertionSort_def sorted_wrt_rev)

lemma sorted_Sort_key:
  fixes f :: "'a \<Rightarrow> 'k::linorder"
  shows "sorted_wrt (\<lambda>a b. f a \<le> f b) (Sort (\<lambda>a b. f a < f b) data)"
  using sorted_Sort [of "\<lambda>a b. f a < f b" data] by (simp add: not_less)

lemma sorted_Sort_Reverse_key:
  fixes f :: "'a \<Rightarrow> 'k::linorder"
  shows "sorted_wrt (\<lambda>a b. f b \<le> f a) (Sort (Reverse (\<lambda>a b. f a < f b)) data)"
  using sorted_Sort [of "Reverse (\<lambda>a b. f a < f b)" data] by (simp add: not_less Reverse_def)

lemma mset_sort_conns: "mset (sort_conns K opts cs) = mset cs"
  by (simp add: sort_conns_def mset_Sort split: option.splits optval.splits)

lemma comparators:
  "ByCid = (\<lambda>a b. Cid a < Cid b)"
  "BySubs = (\<lambda>a b. NumSubs a < NumSubs b)"
  "ByMsgsTo = (\<lambda>a b. sint (conn_OutMsgs a) < sint (conn_OutMsgs b))"
  "ByMsgsFrom = (\<lambda>a b. sint (conn_InMsgs a) < sint (conn_InMsgs b))"
  "ByBytesTo = (\<lambda>a b. sint (conn_OutBytes a) < sint (conn_OutBytes b))"
  "ByBytesFrom = (\<lambda>a b. sint (conn_InBytes a) < sint (conn_InBytes b))"
  by (simp_all add: fun_eq_iff ByCid_def BySubs_def ByMsgsTo_def ByMsgsFrom_def
        ByBytesTo_def ByBytesFrom_def)

text \<open>
  C5, the claim as stated fails on ties. Two connections with five subscriptions each,
  the one with id 2 listed before the one with id 1, sorted by subscription count: the
  comparator sees neither as less than the other, nothing is swapped, and the
  connection with the larger id stays first.
\<close>

theorem tie_break_counterexample:
  "sort_conns endpoint_consts [''sort'' \<mapsto> VSortOpt (SortBySubs endpoint_consts)]
       [example_conn 2 5, example_conn 1 5]
     = [example_conn 2 5, example_conn 1 5]
   \<and> NumSubs (example_conn 2 5) = NumSubs (example_conn 1 5)
   \<and> Cid (example_conn 1 5) < Cid (example_conn 2 5)"
  by (simp add: sort_conns_def endpoint_consts_def Sort_def insertionSort_def Reverse_def
        BySubs_def example_conn_def)


text \<open>
  C5 as amended: for every connection list and every supported sort key (the six
  constants being distinct, as the switch requires), the displayed list is a
  permutation of the input that is ascending in the connection id for the id key and
  descending in the respective metric for the subscription, outbound message, inbound
  message, outbound byte and inbound byte keys. Nothing is stated about the order of
  connections tied on the metric.
\<close>

theorem sort_conns_ordering:
  assumes key: "opts ''sort'' = Some (VSortOpt k)"
      and dist: "distinct [SortByCid K, SortBySubs K, SortByOutMsgs K, SortByInMsgs K,
                     SortByOutBytes K, SortByInBytes K]"
  shows "mset (sort_conns K opts cs) = mset cs
     \<and> (k = SortByCid K \<longrightarrow> sorted_wrt (\<lambda>a b. Cid a \<le> Cid b) (sort_conns K opts cs))
     \<and> (k = SortBySubs K \<longrightarrow>
          sorted_wrt (\<lambda>a b. NumSubs b \<le> NumSubs a) (sort_conns K opts cs))
     \<and> (k = SortByOutMsgs K \<longrightarrow>
          sorted_wrt (\<lambda>a b. sint (conn_OutMsgs b) \<le> sint (conn_OutMsgs a)) (sort_conns K opts cs))
     \<and> (k = SortByInMsgs K \<longrightarrow>
          sorted_wrt (\<lambda>a b. sint (conn_InMsgs b) \<le> sint (conn_InMsgs a)) (sort_conns K opts cs))
     \<and> (k = SortByOutBytes K \<longrightarrow>
          sorted_wrt (\<lambda>a b. sint (conn_OutBytes b) \<le> sint (conn_OutBytes a)) (sort_conns K opts cs))
     \<and> (k = SortByInBytes K \<longrightarrow>
          sorted_wrt (\<lambda>a b. sint (conn_InBytes b) \<le> sint (conn_InBytes a)) (sort_conns K opts cs))"
proof -
  have cid: "sorted_wrt (\<lambda>a b. Cid a \<le> Cid b) (sort_conns K opts cs)" if "k = SortByCid K"
    using that by (simp add: sort_conns_def key comparators(1) sorted_Sort_key)
  have subs: "sorted_wrt (\<lambda>a b. NumSubs b \<le> NumSubs a) (sort_conns K opts cs)"
    if "k = SortBySubs K"
    using that dist by (auto simp add: sort_conns_def key comparators(2) sorted_Sort_Reverse_key)
  have om: "sorted_wrt (\<lambda>a b. sint (conn_OutMsgs b) \<le> sint (conn_OutMsgs a)) (sort_conns K opts cs)"
    if "k = SortByOutMsgs K"
    using that dist by (auto simp add: sort_conns_def key comparators(3) sorted_Sort_Reverse_key)
  have im: "sorted_wrt (\<lambda>a b. sint (conn_InMsgs b) \<le> sint (conn_InMsgs a)) (sort_conns K opts cs)"
    if "k = SortByInMsgs K"
    using that dist by (auto simp add: sort_conns_def key comparators(4) sorted_Sort_Reverse_key)
  have ob: "sorted_wrt (\<lambda>a b. sint (conn_OutBytes b) \<le> sint (conn_OutBytes a)) (sort_conns K opts cs)"
    if "k = SortByOutBytes K"
    using that dist by (auto simp add: sort_conns_def key comparators(5) sorted_Sort_Reverse_key)
  have ib: "sorted_wrt (\<lambda>a b. sint (conn_InBytes b) \<le> sint (conn_InBytes a)) (sort_conns K opts cs)"
    if "k = SortByInBytes K"
    using that dist by (auto simp add: sort_conns_def key comparators(6) sorted_Sort_Reverse_key)
  show ?thesis
    using mset_sort_conns [of K opts cs] cid subs om im ob ib by blast
qed

theorem sort_conns_ordering_witness:
  "mset (sort_conns endpoint_consts [''sort'' \<mapsto> VSortOpt ''subs'']
       [example_conn 1 3, example_conn 2 7])
     = mset [example_conn 1 3, example_conn 2 7]
   \<and> sorted_wrt (\<lambda>a b. NumSubs b \<le> NumSubs a)
       (sort_conns endpoint_consts [''sort'' \<mapsto> VSortOpt ''subs'']
         [example_conn 1 3, example_conn 2 7])
   \<and> sort_conns endpoint_consts [''sort'' \<mapsto> VSortOpt ''subs'']
       [example_conn 1 3, example_conn 2 7] = [example_conn 2 7, example_conn 1 3]"
proof -
  have "sort_conns endpoint_consts [''sort'' \<mapsto> VSortOpt ''subs'']
       [example_conn 1 3, example_conn 2 7] = [example_conn 2 7, example_conn 1 3]"
    by (simp add: sort_conns_def endpoint_consts_def Sort_def insertionSort_def Reverse_def
        BySubs_def example_conn_def)
  then show ?thesis
    using sort_conns_ordering [where opts = "[''sort'' \<mapsto> VSortOpt ''subs'']"
        and k = "''subs''" and K = endpoint_consts
        and cs = "[example_conn 1 3, example_conn 2 7]"]
    by (simp add: endpoint_consts_def)
qed

text \<open>
  C6, the claim as stated fails: the report of a snapshot whose connections are listed
  with id 2 before id 1, under the id key, leaves the snapshot's list as id 1, id 2.
\<close>

theorem report_reorders_counterexample:
  "Conns (Connz (snd (generateParagraph endpoint_consts \<lparr>head_lines = (\<lambda>s. []), conn_line = IP\<rparr>
      [''sort'' \<mapsto> VSortOpt ''cid'']
      (Stats_zero\<lparr>Connz := \<lparr>NumConns = 2, Conns = [example_conn 2 5, example_conn 1 5]\<rparr>\<rparr>))))
     = [example_conn 1 5, example_conn 2 5]
   \<and> Conns (Connz (Stats_zero\<lparr>Connz := \<lparr>NumConns = 2, Conns = [example_conn 2 5, example_conn 1 5]\<rparr>\<rparr>))
     = [example_conn 2 5, example_conn 1 5]
   \<and> [example_conn 1 5, example_conn 2 5] \<noteq> [example_conn 2 5, example_conn 1 5]"
  by (simp add: generateParagraph_def sort_conns_def endpoint_consts_def Sort_def
        insertionSort_def ByCid_def example_conn_def Let_def)

lemma Conns_generateParagraph:
  "Conns (Connz (snd (generateParagraph K F opts stats))) = sort_conns K opts (Conns (Connz stats))"
  by (simp add: generateParagraph_def Let_def)

lemma sort_conns_by_cid:
  assumes "opts ''sort'' = Some (VSortOpt (SortByCid K))"
  shows "sorted_wrt (\<lambda>a b. Cid a \<le> Cid b) (sort_conns K opts cs)"
  by (simp add: sort_conns_def assms comparators(1) sorted_Sort_key)

lemma sort_conns_by_subs:
  assumes "distinct [SortByCid K, SortBySubs K, SortByOutMsgs K, SortByInMsgs K,
             SortByOutBytes K, SortByInBytes K]"
      and "opts ''sort'' = Some (VSortOpt (SortBySubs K))"
  shows "sorted_wrt (\<lambda>a b. NumSubs b \<le> NumSubs a) (sort_conns K opts cs)"
  using assms(1) by (auto simp add: sort_conns_def assms(2) comparators(2) sorted_Sort_Reverse_key)

lemma sort_conns_by_out_msgs:
  assumes "distinct [SortByCid K, SortBySubs K, SortByOutMsgs K, SortByInMsgs K,
             SortByOutBytes K, SortByInBytes K]"
      and "opts ''sort'' = Some (VSortOpt (SortByOutMsgs K))"
  shows "sorted_wrt (\<lambda>a b. sint (conn_OutMsgs b) \<le> sint (conn_OutMsgs a)) (sort_conns K opts cs)"
  using assms(1) by (auto simp add: sort_conns_def assms(2) comparators(3) sorted_Sort_Reverse_key)

lemma sort_conns_by_in_msgs:
  assumes "distinct [SortByCid K, SortBySubs K, SortByOutMsgs K, SortByInMsgs K,
             SortByOutBytes K, SortByInBytes K]"
      and "opts ''sort'' = Some (VSortOpt (SortByInMsgs K))"
  shows "sorted_wrt (\<lambda>a b. sint (conn_InMsgs b) \<le> sint (conn_InMsgs a)) (sort_conns K opts cs)"
  using assms(1) by (auto simp add: sort_conns_def assms(2) comparators(4) sorted_Sort_Reverse_key)

lemma sort_conns_by_out_bytes:
  assumes "distinct [SortByCid K, SortBySubs K, SortByOutMsgs K, SortByInMsgs K,
             SortByOutBytes K, SortByInBytes K]"
      and "opts ''sort'' = Some (VSortOpt (SortByOutBytes K))"
  shows "sorted_wrt (\<lambda>a b. sint (conn_OutBytes b) \<le> sint (conn_OutBytes a)) (sort_conns K opts cs)"
  using assms(1) by (auto simp add: sort_conns_def assms(2) comparators(5) sorted_Sort_Reverse_key)

lemma sort_conns_by_in_bytes:
  assumes "distinct [SortByCid K, SortBySubs K, SortByOutMsgs K, SortByInMsgs K,
             SortByOutBytes K, SortByInBytes K]"
      and "opts ''sort'' = Some (VSortOpt (SortByInBytes K))"
  shows "sorted_wrt (\<lambda>a b. sint (conn_InBytes b) \<le> sint (conn_InBytes a)) (sort_conns K opts cs)"
  using assms(1) by (auto simp add: sort_conns_def assms(2) comparators(6) sorted_Sort_Reverse_key)

lemma sort_conns_no_key:
  "opts ''sort'' = None \<Longrightarrow> sort_conns K opts cs = cs"
  by (simp add: sort_conns_def)

text \<open>
  C6 as amended: producing the report leaves the snapshot's vitals, rates and
  connection count unchanged and keeps the same connections (as a multiset), but
  reorders the connection list in place by the active sort key: after the call the
  snapshot's list is ascending in the connection id under the id key and descending in
  the respective metric under each of the other five keys (the six constants being
  distinct, as the switch requires), and the rows of the report are those of the
  reordered list. The snapshot is unchanged when no sort key is set.
\<close>

theorem generateParagraph_frame:
  assumes dist: "distinct [SortByCid K, SortBySubs K, SortByOutMsgs K, SortByInMsgs K,
                   SortByOutBytes K, SortByInBytes K]"
  shows "Varz (snd (generateParagraph K F opts stats)) = Varz stats
   \<and> Rates (snd (generateParagraph K F opts stats)) = Rates stats
   \<and> NumConns (Connz (snd (generateParagraph K F opts stats))) = NumConns (Connz stats)
   \<and> mset (Conns (Connz (snd (generateParagraph K F opts stats)))) = mset (Conns (Connz stats))
   \<and> fst (generateParagraph K F opts stats) =
       head_lines F stats
       @ concat (map (conn_line F) (Conns (Connz (snd (generateParagraph K F opts stats)))))
   \<and> (opts ''sort'' = None \<longrightarrow> snd (generateParagraph K F opts stats) = stats)
   \<and> (opts ''sort'' = Some (VSortOpt (SortByCid K)) \<longrightarrow>
        sorted_wrt (\<lambda>a b. Cid a \<le> Cid b)
          (Conns (Connz (snd (generateParagraph K F opts stats)))))
   \<and> (opts ''sort'' = Some (VSortOpt (SortBySubs K)) \<longrightarrow>
        sorted_wrt (\<lambda>a b. NumSubs b \<le> NumSubs a)
          (Conns (Connz (snd (generateParagraph K F opts stats)))))
   \<and> (opts ''sort'' = Some (VSortOpt (SortByOutMsgs K)) \<longrightarrow>
        sorted_wrt (\<lambda>a b. sint (conn_OutMsgs b) \<le> sint (conn_OutMsgs a))
          (Conns (Connz (snd (generateParagraph K F opts stats)))))
   \<and> (opts ''sort'' = Some (VSortOpt (SortByInMsgs K)) \<longrightarrow>
        sorted_wrt (\<lambda>a b. sint (conn_InMsgs b) \<le> sint (conn_InMsgs a))
          (Conns (Connz (snd (generateParagraph K F opts stats)))))
   \<and> (opts ''sort'' = Some (VSortOpt (SortByOutBytes K)) \<longrightarrow>
        sorted_wrt (\<lambda>a b. sint (conn_OutBytes b) \<le> sint (conn_OutBytes a))
          (Conns (Connz (snd (generateParagraph K F opts stats)))))
   \<and> (opts ''sort'' = Some (VSortOpt (SortByInBytes K)) \<longrightarrow>
        sorted_wrt (\<lambda>a b. sint (conn_InBytes b) \<le> sint (conn_InBytes a))
          (Conns (Connz (snd (generateParagraph K F opts stats)))))"
proof (intro conjI impI)
  show "opts ''sort'' = None \<Longrightarrow> snd (generateParagraph K F opts stats) = stats"
    by (simp add: generateParagraph_def Let_def sort_conns_no_key)
qed (simp_all only: Conns_generateParagraph mset_sort_conns
       sort_conns_by_cid sort_conns_by_subs [OF dist] sort_conns_by_out_msgs [OF dist]
       sort_conns_by_in_msgs [OF dist] sort_conns_by_out_bytes [OF dist]
       sort_conns_by_in_bytes [OF dist],
     simp_all add: generateParagraph_def Let_def)

theorem generateParagraph_frame_witness:
  "Conns (Connz (snd (generateParagraph endpoint_consts \<lparr>head_lines = (\<lambda>s. []), conn_line = IP\<rparr>
      [''sort'' \<mapsto> VSortOpt ''subs'']
      (Stats_zero\<lparr>Connz := \<lparr>NumConns = 2, Conns = [example_conn 1 3, example_conn 2 7]\<rparr>\<rparr>))))
     = [example_conn 2 7, example_conn 1 3]
   \<and> sorted_wrt (\<lambda>a b. NumSubs b \<le> NumSubs a)
       (Conns (Connz (snd (generateParagraph endpoint_consts
          \<lparr>head_lines = (\<lambda>s. []), conn_line = IP\<rparr> [''sort'' \<mapsto> VSortOpt ''subs'']
          (Stats_zero\<lparr>Connz := \<lparr>NumConns = 2, Conns = [example_conn 1 3, example_conn 2 7]\<rparr>\<rparr>)))))
   \<and> mset (Conns (Connz (snd (generateParagraph endpoint_consts
          \<lparr>head_lines = (\<lambda>s. []), conn_line = IP\<rparr> [''sort'' \<mapsto> VSortOpt ''subs'']
          (Stats_zero\<lparr>Connz := \<lparr>NumConns = 2, Conns = [example_conn 1 3, example_conn 2 7]\<rparr>\<rparr>)))))
     = mset [example_conn 1 3, example_conn 2 7]"
proof -
  let ?F = "\<lparr>head_lines = (\<lambda>s. []), conn_line = IP\<rparr>"
  let ?opts = "[''sort'' \<mapsto> VSortOpt ''subs'']"
  let ?stats = "Stats_zero\<lparr>Connz := \<lparr>NumConns = 2,
      Conns = [example_conn 1 3, example_conn 2 7]\<rparr>\<rparr>"
  have dist: "distinct [SortByCid endpoint_consts, SortBySubs endpoint_consts,
      SortByOutMsgs endpoint_consts, SortByInMsgs endpoint_consts,
      SortByOutBytes endpoint_consts, SortByInBytes endpoint_consts]"
    by (simp add: endpoint_consts_def)
  have key: "?opts ''sort'' = Some (VSortOpt (SortBySubs endpoint_consts))"
    by (simp add: endpoint_consts_def)
  note frame = generateParagraph_frame [where K = endpoint_consts and F = ?F
      and opts = ?opts and stats = ?stats, OF dist]
  have run: "Conns (Connz (snd (generateParagraph endpoint_consts ?F ?opts ?stats)))
     = [example_conn 2 7, example_conn 1 3]"
    by (simp add: generateParagraph_def sort_conns_def endpoint_consts_def Sort_def
        insertionSort_def Reverse_def BySubs_def example_conn_def Let_def)
  have ordered: "sorted_wrt (\<lambda>a b. NumSubs b \<le> NumSubs a)
       (Conns (Connz (snd (generateParagraph endpoint_consts ?F ?opts ?stats))))"
    using frame key by blast
  have "mset (Conns (Connz (snd (generateParagraph endpoint_consts ?F ?opts ?stats))))
     = mset (Conns (Connz ?stats))"
    using frame by blast
  then have same: "mset (Conns (Connz (snd (generateParagraph endpoint_consts ?F ?opts ?stats))))
     = mset [example_conn 1 3, example_conn 2 7]"
    by simp
  show ?thesis
    by (intro conjI) (rule run, rule ordered, rule same)
qed

section \<open>Properties of the start-up\<close>









section \<open>Properties of the keyboard loop\<close>

lemma rune_values [simp]:
  "rune CHR ''q'' = 113" "rune CHR ''o'' = 111" "rune CHR ''n'' = 110"
  by (simp_all add: rune_def)

lemma string_of_rune_zero: "string_of_rune 0 = [CHR 0x00]"
  by (simp add: string_of_rune_def char_of_def)

text \<open>
  Enter on an invalid sort key, when no event arrives during the sleep. In the sort
  prompt (and not in the limit prompt), enter on a buffer that is none of the six sort
  keys prints the invalid-order notice and starts a goroutine that sleeps one second;
  until it wakes, nothing else has changed. When it wakes with no event in between, the
  blanks of \<^verbatim>\<open>refreshOptionHeader\<close> (20 and 2 for each byte of the buffer) have been
  printed, the buffer is empty and neither prompt is active; the options, and with them
  the active sort key, are what they were.
\<close>

theorem invalid_sort_key_rejected:
  assumes "waitingSortOption s" "\<not> waitingLimitOption s" "\<not> is_sort_key K (optionBuf s)"
      and "Type e = EventKey" "Key e = KeyEnter"
  shows "handle_event K Sscanf e s =
           Inr (s\<lparr>sleepers := sleepers s @ [1000000000],
                  screen := screen s @ [InvalidOrder
                    (if length (optionBuf s) < 5 then ''       '' else []) (optionBuf s)]\<rparr>)
       \<and> run_ui K Sscanf s [Ev e, Woken] =
           Inr (s\<lparr>waitingSortOption := False, optionBuf := [],
                  sleepers := tl (sleepers s @ [1000000000]),
                  screen := screen s @ [InvalidOrder
                    (if length (optionBuf s) < 5 then ''       '' else []) (optionBuf s),
                    ClearLine (18 + 2 + 2 * length (optionBuf s))]\<rparr>)"
  using assms
  by (cases "sleepers s")
     (simp_all add: handle_event_def sort_prompt_def invalid_order_def emit_def wake_def
        refreshOptionHeader_def Let_def)

theorem invalid_sort_key_witness:
  "run_ui endpoint_consts (\<lambda>b. None)
     ((StartUI_init [''sort'' \<mapsto> VSortOpt ''cid''])\<lparr>waitingSortOption := True, optionBuf := ''xyz''\<rparr>)
     [Ev (key_event KeyEnter), Woken]
   = Inr ((StartUI_init [''sort'' \<mapsto> VSortOpt ''cid''])
        \<lparr>screen := [InvalidOrder ''       '' ''xyz'', ClearLine 26]\<rparr>)"
  using invalid_sort_key_rejected [where K = endpoint_consts and Sscanf = "\<lambda>b. None"
      and e = "key_event KeyEnter"
      and s = "(StartUI_init [''sort'' \<mapsto> VSortOpt ''cid''])\<lparr>waitingSortOption := True, optionBuf := ''xyz''\<rparr>"]
  by (simp add: StartUI_init_def key_event_def is_sort_key_def endpoint_consts_def
        del: run_ui.simps)

text \<open>
  C7. The claim: enter on an invalid sort key leaves the sort key unchanged, shows the
  notice for about a second, clears the prompt and the buffer and returns the loop to
  the normal state. The program, on two inputs. With the one-byte buffer \<^verbatim>\<open>x\<close>: the
  notice is 15 + 7 + 1 = 23 columns wide and \<^verbatim>\<open>refreshOptionHeader\<close> writes 18 + 2 + 2
  = 22 blanks over it, so column 23 still shows the typed byte and the prompt row is
  not cleared. With the space bar and then \<^verbatim>\<open>n\<close> pressed during the goroutine's sleep:
  the space bar leaves the prompt, \<^verbatim>\<open>n\<close> opens the limit prompt, and the goroutine's
  wake-up then empties the buffer of a loop that is in the limit prompt, not in the
  normal state.
\<close>

theorem invalid_order_defects:
  "run_ui endpoint_consts (\<lambda>b. None)
     ((StartUI_init [''sort'' \<mapsto> VSortOpt ''cid''])\<lparr>waitingSortOption := True, optionBuf := ''x''\<rparr>)
     [Ev (key_event KeyEnter), Woken]
   = Inr ((StartUI_init [''sort'' \<mapsto> VSortOpt ''cid''])
        \<lparr>screen := [InvalidOrder ''       '' ''x'', ClearLine 22]\<rparr>)
   \<and> overprint (notice_text ''       '' ''x'') (blank_text 22) = blank_text 22 @ ''x''
   \<and> run_ui endpoint_consts (\<lambda>b. None)
     ((StartUI_init [''sort'' \<mapsto> VSortOpt ''cid''])\<lparr>waitingSortOption := True, optionBuf := ''xyz''\<rparr>)
     [Ev (key_event KeyEnter), Ev (key_event KeySpace), Ev (char_event CHR ''n''), Woken]
   = Inr ((StartUI_init [''sort'' \<mapsto> VSortOpt ''cid''])
        \<lparr>waitingLimitOption := True, viewMode := ''dashboard'',
         screen := [InvalidOrder ''       '' ''xyz'',
                    SortBy (Some (VSortOpt ''cid'')) (''xyz'' @ [CHR 0x00]),
                    ClearLine 28, BodyAlign, LimitPrompt None, ClearLine 28]\<rparr>)"
  by (simp add: handle_event_def sort_prompt_def limit_prompt_def edit_buf_def keys_def
        other_keys_def toggle_view_def invalid_order_def wake_def refreshOptionHeader_def
        emit_def StartUI_init_def key_event_def char_event_def is_sort_key_def
        endpoint_consts_def string_of_rune_def char_of_def rune_def Let_def
        KeyEnter_def KeySpace_def KeyBackspace_def KeyBackspace2_def
        overprint_def notice_text_def blank_text_def)

lemma prompt_q:
  assumes "Type e = EventKey" "waitingSortOption s" "\<not> waitingLimitOption s"
      "Key e \<noteq> KeyEnter" "Ch e = rune CHR ''q''"
  shows "handle_event K Sscanf e s = Inl 0"
  using assms
  by (simp add: handle_event_def sort_prompt_def edit_buf_def keys_def emit_def Let_def
        refreshOptionHeader_def)

lemma prompt_space:
  assumes "Type e = EventKey" "waitingSortOption s" "\<not> waitingLimitOption s"
      "Key e = KeySpace" "Ch e \<noteq> rune CHR ''q''" "viewMode s = ''top''"
  shows "\<exists>s'. handle_event K Sscanf e s = Inr s' \<and> viewMode s' = ''dashboard''
     \<and> \<not> waitingSortOption s' \<and> \<not> waitingLimitOption s'
     \<and> optionBuf s' = optionBuf s @ string_of_rune (Ch e) \<and> ui_opts s' = ui_opts s"
  using assms
  by (simp add: handle_event_def sort_prompt_def edit_buf_def keys_def other_keys_def
        toggle_view_def emit_def Let_def refreshOptionHeader_def
        KeyEnter_def KeySpace_def KeyBackspace_def KeyBackspace2_def)

text \<open>
  C9, the claim as stated fails in the sort prompt for \<^verbatim>\<open>q\<close> and for the space bar:
  \<^verbatim>\<open>q\<close> is appended and then reaches the quit test, which ends the process; the space
  bar (a key code with a zero character) appends a zero byte, and then toggles the view
  and leaves the prompt.
\<close>

theorem prompt_q_exits_counterexample:
  "handle_event endpoint_consts (\<lambda>b. None) (char_event CHR ''q'')
     ((StartUI_init [''sort'' \<mapsto> VSortOpt ''cid''])\<lparr>waitingSortOption := True\<rparr>) = Inl 0
   \<and> handle_event endpoint_consts (\<lambda>b. None) (key_event KeySpace)
     ((StartUI_init [''sort'' \<mapsto> VSortOpt ''cid''])\<lparr>waitingSortOption := True\<rparr>)
     = Inr ((StartUI_init [''sort'' \<mapsto> VSortOpt ''cid''])
         \<lparr>optionBuf := [CHR 0x00], viewMode := ''dashboard'',
          screen := [SortBy (Some (VSortOpt ''cid'')) [CHR 0x00], ClearLine 22, BodyAlign]\<rparr>)"
  by (simp add: handle_event_def sort_prompt_def edit_buf_def keys_def other_keys_def toggle_view_def
        refreshOptionHeader_def emit_def StartUI_init_def char_event_def key_event_def
        KeyEnter_def KeySpace_def KeyBackspace_def KeyBackspace2_def Let_def
        string_of_rune_zero string_of_rune_def char_of_def)


text \<open>
  C9 as amended. In the sort prompt: a key event that carries a character other than
  \<^verbatim>\<open>q\<close> (the characters \<^verbatim>\<open>o\<close> and \<^verbatim>\<open>n\<close> included) appends the character to the buffer
  and changes neither the mode, the view nor the options; more generally every key
  event other than enter, the space bar and \<^verbatim>\<open>q\<close> leaves the mode, the view and the
  options as they are. In the normal state: every key event other than \<^verbatim>\<open>q\<close>, \<^verbatim>\<open>o\<close>,
  \<^verbatim>\<open>n\<close> and the space bar leaves the whole state unchanged. The prompt does not
  capture \<^verbatim>\<open>q\<close> and the space bar: in the sort prompt \<^verbatim>\<open>q\<close> ends the process with
  status 0, and the space bar in the top view appends its (zero) character, switches to
  the dashboard and leaves the prompt.
\<close>

theorem prompt_keys_append:
  assumes "Type e = EventKey"
  shows "(waitingSortOption s \<and> \<not> waitingLimitOption s \<and> Key e = 0 \<and> Ch e \<noteq> rune CHR ''q'' \<longrightarrow>
            (\<exists>s'. handle_event K Sscanf e s = Inr s'
               \<and> optionBuf s' = optionBuf s @ string_of_rune (Ch e)
               \<and> waitingSortOption s' \<and> \<not> waitingLimitOption s'
               \<and> viewMode s' = viewMode s \<and> ui_opts s' = ui_opts s \<and> sleepers s' = sleepers s))
       \<and> (waitingSortOption s \<and> \<not> waitingLimitOption s \<and> Key e \<noteq> KeyEnter
            \<and> Key e \<noteq> KeySpace \<and> Ch e \<noteq> rune CHR ''q'' \<longrightarrow>
            (\<exists>s'. handle_event K Sscanf e s = Inr s'
               \<and> waitingSortOption s' \<and> \<not> waitingLimitOption s'
               \<and> viewMode s' = viewMode s \<and> ui_opts s' = ui_opts s \<and> sleepers s' = sleepers s))
       \<and> (\<not> waitingSortOption s \<and> \<not> waitingLimitOption s \<and> Key e \<noteq> KeySpace
            \<and> Ch e \<noteq> rune CHR ''q'' \<and> Ch e \<noteq> rune CHR ''o'' \<and> Ch e \<noteq> rune CHR ''n'' \<longrightarrow>
            handle_event K Sscanf e s = Inr s)
       \<and> (waitingSortOption s \<and> \<not> waitingLimitOption s \<and> Key e \<noteq> KeyEnter
            \<and> Ch e = rune CHR ''q'' \<longrightarrow>
            handle_event K Sscanf e s = Inl 0)
       \<and> (waitingSortOption s \<and> \<not> waitingLimitOption s \<and> Key e = KeySpace
            \<and> Ch e \<noteq> rune CHR ''q'' \<and> viewMode s = ''top'' \<longrightarrow>
            (\<exists>s'. handle_event K Sscanf e s = Inr s' \<and> viewMode s' = ''dashboard''
               \<and> \<not> waitingSortOption s' \<and> \<not> waitingLimitOption s'
               \<and> optionBuf s' = optionBuf s @ string_of_rune (Ch e)
               \<and> ui_opts s' = ui_opts s))"
proof (intro conjI impI)
  assume a: "waitingSortOption s \<and> \<not> waitingLimitOption s \<and> Key e = 0 \<and> Ch e \<noteq> rune CHR ''q''"
  with assms show "\<exists>s'. handle_event K Sscanf e s = Inr s'
               \<and> optionBuf s' = optionBuf s @ string_of_rune (Ch e)
               \<and> waitingSortOption s' \<and> \<not> waitingLimitOption s'
               \<and> viewMode s' = viewMode s \<and> ui_opts s' = ui_opts s \<and> sleepers s' = sleepers s"
    by (simp add: handle_event_def sort_prompt_def edit_buf_def keys_def other_keys_def emit_def Let_def
          KeyEnter_def KeySpace_def KeyBackspace_def KeyBackspace2_def)
next
  assume a: "waitingSortOption s \<and> \<not> waitingLimitOption s \<and> Key e \<noteq> KeyEnter
            \<and> Key e \<noteq> KeySpace \<and> Ch e \<noteq> rune CHR ''q''"
  with assms show "\<exists>s'. handle_event K Sscanf e s = Inr s'
               \<and> waitingSortOption s' \<and> \<not> waitingLimitOption s'
               \<and> viewMode s' = viewMode s \<and> ui_opts s' = ui_opts s \<and> sleepers s' = sleepers s"
    by (simp add: handle_event_def sort_prompt_def edit_buf_def keys_def other_keys_def emit_def Let_def
          refreshOptionHeader_def)
next
  assume a: "\<not> waitingSortOption s \<and> \<not> waitingLimitOption s \<and> Key e \<noteq> KeySpace
            \<and> Ch e \<noteq> rune CHR ''q'' \<and> Ch e \<noteq> rune CHR ''o'' \<and> Ch e \<noteq> rune CHR ''n''"
  with assms show "handle_event K Sscanf e s = Inr s"
    by (simp add: handle_event_def keys_def other_keys_def)
next
  assume "waitingSortOption s \<and> \<not> waitingLimitOption s \<and> Key e \<noteq> KeyEnter
            \<and> Ch e = rune CHR ''q''"
  with assms show "handle_event K Sscanf e s = Inl 0"
    by (simp add: prompt_q)
next
  assume "waitingSortOption s \<and> \<not> waitingLimitOption s \<and> Key e = KeySpace
            \<and> Ch e \<noteq> rune CHR ''q'' \<and> viewMode s = ''top''"
  with assms show "\<exists>s'. handle_event K Sscanf e s = Inr s' \<and> viewMode s' = ''dashboard''
               \<and> \<not> waitingSortOption s' \<and> \<not> waitingLimitOption s'
               \<and> optionBuf s' = optionBuf s @ string_of_rune (Ch e)
               \<and> ui_opts s' = ui_opts s"
    by (intro prompt_space) simp_all
qed

theorem prompt_keys_append_witness:
  "(\<exists>s'. handle_event endpoint_consts (\<lambda>b. None) (char_event CHR ''o'')
        ((StartUI_init Map.empty)\<lparr>waitingSortOption := True, optionBuf := ''c''\<rparr>) = Inr s'
      \<and> optionBuf s' = ''co'' \<and> waitingSortOption s' \<and> viewMode s' = ''top'')
   \<and> handle_event endpoint_consts (\<lambda>b. None) (char_event CHR ''x'') (StartUI_init Map.empty)
       = Inr (StartUI_init Map.empty)"
  using prompt_keys_append [where K = endpoint_consts and Sscanf = "\<lambda>b. None"
      and e = "char_event CHR ''o''"
      and s = "(StartUI_init Map.empty)\<lparr>waitingSortOption := True, optionBuf := ''c''\<rparr>"]
    prompt_keys_append [where K = endpoint_consts and Sscanf = "\<lambda>b. None"
      and e = "char_event CHR ''x''" and s = "StartUI_init Map.empty"]
  by (auto simp add: StartUI_init_def char_event_def string_of_rune_def rune_def char_of_def
        KeySpace_def)

text \<open>
  C10. In either prompt, a backspace key event on an empty buffer takes the append
  branch: the buffer becomes the string of the event's character. For the zero rune
  that a key code carries this is the one byte 0, and the event has no further effect
  than the prompt being printed again.
\<close>

theorem backspace_on_empty_buffer_appends:
  assumes "Type e = EventKey" "Key e = KeyBackspace \<or> Key e = KeyBackspace2"
      and "optionBuf s = []" "waitingSortOption s \<noteq> waitingLimitOption s"
  shows "edit_buf e s = s\<lparr>optionBuf := string_of_rune (Ch e)\<rparr>
       \<and> (Ch e = 0 \<longrightarrow>
            handle_event K Sscanf e s =
              Inr (s\<lparr>optionBuf := [CHR 0x00],
                     screen := screen s @
                       [if waitingSortOption s then SortBy (ui_opts s ''sort'') [CHR 0x00]
                        else Limit (ui_opts s ''conns'') [CHR 0x00]]\<rparr>)
            \<and> length [CHR 0x00] = 1)"
  using assms
  by (auto simp: handle_event_def sort_prompt_def limit_prompt_def edit_buf_def keys_def other_keys_def
        emit_def Let_def string_of_rune_zero
        KeyEnter_def KeySpace_def KeyBackspace_def KeyBackspace2_def)

theorem backspace_on_empty_buffer_witness:
  "handle_event endpoint_consts (\<lambda>b. None) (key_event KeyBackspace2)
      ((StartUI_init Map.empty)\<lparr>waitingLimitOption := True\<rparr>)
    = Inr ((StartUI_init Map.empty)\<lparr>waitingLimitOption := True, optionBuf := [CHR 0x00],
             screen := [Limit None [CHR 0x00]]\<rparr>)"
  using backspace_on_empty_buffer_appends [where K = endpoint_consts and Sscanf = "\<lambda>b. None"
      and e = "key_event KeyBackspace2"
      and s = "(StartUI_init Map.empty)\<lparr>waitingLimitOption := True\<rparr>"]
  by (simp add: StartUI_init_def key_event_def)

lemma exclusive_wake: "exclusive s \<Longrightarrow> exclusive (wake s)"
  by (cases "sleepers s")
     (simp_all add: exclusive_def wake_def refreshOptionHeader_def emit_def Let_def)

lemma sort_prompt_limit_flag:
  "waitingLimitOption (fst (sort_prompt K e s)) = waitingLimitOption s"
  by (simp add: sort_prompt_def edit_buf_def invalid_order_def refreshOptionHeader_def
        emit_def Let_def)

lemma limit_prompt_sort_flag:
  "waitingSortOption (fst (limit_prompt Sscanf e s)) = waitingSortOption s"
  by (simp add: limit_prompt_def edit_buf_def refreshOptionHeader_def emit_def Let_def
        split: option.splits)

lemma exclusive_toggle_view: "exclusive s \<Longrightarrow> exclusive (toggle_view s)"
  by (simp add: exclusive_def toggle_view_def refreshOptionHeader_def emit_def Let_def)

lemma exclusive_resize: "exclusive s \<Longrightarrow> exclusive (resize s)"
  by (simp add: exclusive_def resize_def emit_def)

lemma exclusive_if:
  "exclusive x \<Longrightarrow> (P \<Longrightarrow> exclusive y) \<Longrightarrow> exclusive (if P then y else x)"
  by simp

lemma exclusive_limit_prompt_on:
  "\<not> waitingSortOption x \<Longrightarrow> exclusive ((emit p x)\<lparr>waitingLimitOption := True\<rparr>)"
  by (simp add: exclusive_def emit_def)

lemma exclusive_other_keys:
  assumes "exclusive s"
  shows "exclusive (other_keys e s)"
proof -
  let ?a = "if Type e = EventKey \<and> Ch e = rune CHR ''o'' \<and> \<not> waitingLimitOption s
            then (emit (SortByPrompt (ui_opts s ''sort'')) s)\<lparr>waitingSortOption := True\<rparr>
            else s"
  let ?b = "if Type e = EventKey \<and> Ch e = rune CHR ''n'' \<and> \<not> waitingSortOption ?a
            then (emit (LimitPrompt (ui_opts ?a ''conns'')) ?a)\<lparr>waitingLimitOption := True\<rparr>
            else ?a"
  let ?c = "if Type e = EventKey \<and> Key e = KeySpace then toggle_view ?b else ?b"
  have a: "exclusive ?a"
    using assms by (simp add: exclusive_def emit_def)
  have b: "exclusive ?b"
    by (rule exclusive_if [OF a]) (rule exclusive_limit_prompt_on, blast)
  have c: "exclusive ?c"
    by (rule exclusive_if [OF b]) (rule exclusive_toggle_view [OF b])
  have "exclusive (if Type e = EventResize then resize ?c else ?c)"
    by (rule exclusive_if [OF c]) (rule exclusive_resize [OF c])
  then show ?thesis
    by (simp only: other_keys_def Let_def)
qed

lemma exclusive_keys:
  assumes "exclusive s" "keys e s = Inr s'"
  shows "exclusive s'"
proof -
  have "s' = other_keys e s"
    using assms(2) by (simp add: keys_def split: if_splits)
  with assms(1) show ?thesis by (simp add: exclusive_other_keys)
qed

lemma exclusive_handle_event:
  assumes "exclusive s" "handle_event K Sscanf e s = Inr s'"
  shows "exclusive s'"
proof (cases "waitingSortOption s")
  case True
  then have lim: "\<not> waitingLimitOption s" using assms(1) by (simp add: exclusive_def)
  obtain s1 c1 where sp: "sort_prompt K e s = (s1, c1)" by (cases "sort_prompt K e s")
  have l1: "\<not> waitingLimitOption s1"
    using sort_prompt_limit_flag [of K e s] lim sp by simp
  then have ex1: "exclusive s1" by (simp add: exclusive_def)
  show ?thesis
  proof (cases c1)
    case True
    then have "s' = s1" using assms(2) \<open>waitingSortOption s\<close> sp by (simp add: handle_event_def)
    with ex1 show ?thesis by simp
  next
    case False
    then have "keys e s1 = Inr s'"
      using assms(2) \<open>waitingSortOption s\<close> sp l1 by (simp add: handle_event_def)
    with ex1 show ?thesis by (rule exclusive_keys)
  qed
next
  case False
  show ?thesis
  proof (cases "waitingLimitOption s")
    case True
    obtain s2 c2 where lp: "limit_prompt Sscanf e s = (s2, c2)"
      by (cases "limit_prompt Sscanf e s")
    have "\<not> waitingSortOption s2"
      using limit_prompt_sort_flag [of Sscanf e s] False lp by simp
    then have ex2: "exclusive s2" by (simp add: exclusive_def)
    show ?thesis
    proof (cases c2)
      case True
      then have "s' = s2"
        using assms(2) False \<open>waitingLimitOption s\<close> lp by (simp add: handle_event_def)
      with ex2 show ?thesis by simp
    next
      case c: False
      then have "keys e s2 = Inr s'"
        using assms(2) False \<open>waitingLimitOption s\<close> lp by (simp add: handle_event_def)
      with ex2 show ?thesis by (rule exclusive_keys)
    qed
  next
    case lim: False
    then have "keys e s = Inr s'"
      using assms(2) False by (simp add: handle_event_def)
    with assms(1) show ?thesis by (rule exclusive_keys)
  qed
qed

lemma exclusive_run_ui:
  "exclusive s \<Longrightarrow> run_ui K Sscanf s ins = Inr s' \<Longrightarrow> exclusive s'"
proof (induction ins arbitrary: s)
  case Nil
  then show ?case by simp
next
  case (Cons i ins)
  show ?case
  proof (cases i)
    case (Ev e)
    with Cons.prems obtain s1 where h: "handle_event K Sscanf e s = Inr s1"
        and r: "run_ui K Sscanf s1 ins = Inr s'"
      by (auto split: sum.splits)
    have "exclusive s1" using Cons.prems(1) h by (rule exclusive_handle_event)
    then show ?thesis using r by (rule Cons.IH)
  next
    case Woken
    with Cons.prems have "run_ui K Sscanf (wake s) ins = Inr s'" by simp
    with exclusive_wake [OF Cons.prems(1)] show ?thesis by (rule Cons.IH)
  qed
qed

text \<open>
  The two prompts exclude each other: in every state the loop reaches from its start,
  at most one of them is active.
\<close>

theorem prompts_mutually_exclusive:
  "run_ui K Sscanf (StartUI_init opts) ins = Inr s \<Longrightarrow>
     \<not> (waitingSortOption s \<and> waitingLimitOption s)"
  using exclusive_run_ui [where s = "StartUI_init opts" and K = K and Sscanf = Sscanf
      and ins = ins and s' = s]
  by (simp add: exclusive_def StartUI_init_def)

theorem prompts_mutually_exclusive_witness:
  "run_ui endpoint_consts (\<lambda>b. None) (StartUI_init Map.empty)
      [Ev (char_event CHR ''o''), Ev (char_event CHR ''n'')]
     = Inr ((StartUI_init Map.empty)\<lparr>waitingSortOption := True, optionBuf := ''n'',
         screen := [SortByPrompt None, SortBy None ''n'']\<rparr>)
   \<and> \<not> (waitingSortOption ((StartUI_init Map.empty)\<lparr>waitingSortOption := True, optionBuf := ''n'',
         screen := [SortByPrompt None, SortBy None ''n'']\<rparr>)
       \<and> waitingLimitOption ((StartUI_init Map.empty)\<lparr>waitingSortOption := True, optionBuf := ''n'',
         screen := [SortByPrompt None, SortBy None ''n'']\<rparr>))"
proof -
  have r: "run_ui endpoint_consts (\<lambda>b. None) (StartUI_init Map.empty)
      [Ev (char_event CHR ''o''), Ev (char_event CHR ''n'')]
     = Inr ((StartUI_init Map.empty)\<lparr>waitingSortOption := True, optionBuf := ''n'',
         screen := [SortByPrompt None, SortBy None ''n'']\<rparr>)"
    by (simp add: handle_event_def sort_prompt_def edit_buf_def keys_def other_keys_def emit_def
          StartUI_init_def char_event_def string_of_rune_def char_of_def rune_def Let_def
          KeyEnter_def KeySpace_def KeyBackspace_def KeyBackspace2_def)
  show ?thesis
    using r prompts_mutually_exclusive [OF r] by simp
qed

text \<open>
  Enter in the limit prompt: the number read from the buffer, if there is one, becomes
  the connection limit, and otherwise the limit is kept; either way the buffer is
  emptied, the prompt line is blanked and the loop is back in the normal state.
\<close>

theorem limit_entry_commits_or_discards:
  assumes "waitingLimitOption s" "\<not> waitingSortOption s"
      and "Type e = EventKey" "Key e = KeyEnter"
  shows "handle_event K Sscanf e s =
     Inr (s\<lparr>ui_opts := (case Sscanf (optionBuf s) of
                           Some n \<Rightarrow> (ui_opts s)(''conns'' \<mapsto> VInt n)
                         | None \<Rightarrow> ui_opts s),
            waitingLimitOption := False, optionBuf := [],
            screen := screen s @ [ClearLine 20]\<rparr>)"
  using assms
  by (simp add: handle_event_def limit_prompt_def refreshOptionHeader_def emit_def Let_def
        split: option.splits)

theorem limit_entry_witness:
  "handle_event endpoint_consts (\<lambda>b. if b = ''250'' then Some 250 else None)
      (key_event KeyEnter)
      ((StartUI_init [''conns'' \<mapsto> VInt 1024])\<lparr>waitingLimitOption := True, optionBuf := ''250''\<rparr>)
    = Inr ((StartUI_init [''conns'' \<mapsto> VInt 250])\<lparr>screen := [ClearLine 20]\<rparr>)"
  using limit_entry_commits_or_discards [where K = endpoint_consts
      and Sscanf = "\<lambda>b. if b = ''250'' then Some 250 else None" and e = "key_event KeyEnter"
      and s = "(StartUI_init [''conns'' \<mapsto> VInt 1024])\<lparr>waitingLimitOption := True, optionBuf := ''250''\<rparr>"]
  by (simp add: StartUI_init_def key_event_def)

end
